theory Spec2Isabelle
  imports Main "HOL-Library.Char_ord" "HOL-Library.List_Lexorder" "HOL-Library.Multiset"
    "HOL-Library.AList"
begin

section \<open>The editable document: tokens, attributes, blocks, bodies\<close>

text \<open>
  The sorters of \<^verbatim>\<open>internal/hclsort/hcl_processor.go\<close> work on the editable syntax
  tree of the \<^verbatim>\<open>hclwrite\<close> package. The part of that tree the sorters read and write
  is embedded here: a node is an attribute, a nested block or a run of unstructured
  tokens; a block has a kind, labels and a body.

  A body of hclwrite keeps two things: the ordered list of its child nodes
  (\<open>children\<close>), which is what the body is written out from, and the set of its
  items (\<open>items\<close>), the attribute and block nodes that were parsed or appended as
  such. \<open>Body.Attributes()\<close> ranges over the item set, \<open>Body.Blocks()\<close> lists the items
  that stand in the child list, and \<open>Body.Clear()\<close> empties the child list only. Of
  the item set the model keeps the attributes (\<open>attrItems\<close>): a block is read only
  while it stands in the child list, where every block node is an item.

  A token carries its type and its raw bytes. Only \<open>TokenNewline\<close> is inspected by the
  code; the other constructors stand for the remaining token types.
\<close>

datatype TokenType = TokenNewline | TokenComment | TokenIdent | TokenEqual | TokenOther

record Token =
  Type :: TokenType
  Bytes :: string

text \<open>
  An attribute is read by the sorters through its name (the key of the map returned by
  \<open>Body.Attributes()\<close>) and through \<open>attr.BuildTokens(nil)\<close>, its complete token
  sequence (lead comments, name, equals sign, expression, line comment, end of line).
\<close>

record Attribute =
  attrName :: string
  BuildTokens :: "Token list"

datatype Node = AttributeNode Attribute | BlockNode Block | TokensNode "Token list"
and Block = MkBlock (BlockType: string) (Labels: "string list") (Body: Body)
and Body = MkBody (children: "Node list") (attrItems: "Attribute list")

datatype File = MkFile (FileBody: Body)

text \<open>
  Modelled from the spec: the declaration of \<open>SortableBlock\<close> is not part of
  \<^verbatim>\<open>hcl_processor.go\<close>; its two fields are the ones the composite literal at lines
  240-243 fills in (the first label as sort key, and the block).
\<close>

record SortableBlock =
  Name :: string
  Block :: Block

subsection \<open>Run-time failures\<close>

text \<open>
  Go panics on an index or slice expression out of range and on a method call through
  a nil pointer. Each such operation of the source returns a sum, \<open>Inl\<close> the panic.
\<close>

datatype panic = NilPointerDereference | IndexOutOfRange | SliceBoundsOutOfRange

definition index :: "'a list \<Rightarrow> nat \<Rightarrow> panic + 'a" where
  "index xs i = (if i < length xs then Inr (xs ! i) else Inl IndexOutOfRange)"

definition slice :: "'a list \<Rightarrow> nat \<Rightarrow> nat \<Rightarrow> panic + 'a list" where
  "slice xs lo hi =
     (if lo \<le> hi \<and> hi \<le> length xs then Inr (take (hi - lo) (drop lo xs))
      else Inl SliceBoundsOutOfRange)"

subsection \<open>Body operations of hclwrite\<close>

text \<open>
  The operations the sorters call. \<open>Clear\<close> empties the child list and leaves the item
  set as it is; \<open>AppendNewline\<close> and \<open>AppendUnstructuredTokens\<close> append a run of tokens
  to the child list, which is no item; \<open>AppendBlock\<close> appends a block to the child
  list (and to the items); \<open>Blocks\<close> lists the blocks of the child list in their order.
\<close>

definition newlineToken :: Token where
  "newlineToken = \<lparr>Type = TokenNewline, Bytes = [CHR 0x0A]\<rparr>"

definition Clear :: "Body \<Rightarrow> Body" where
  "Clear body = MkBody [] (attrItems body)"

definition AppendUnstructuredTokens :: "Body \<Rightarrow> Token list \<Rightarrow> Body" where
  "AppendUnstructuredTokens body ts = MkBody (children body @ [TokensNode ts]) (attrItems body)"

definition AppendNewline :: "Body \<Rightarrow> Body" where
  "AppendNewline body = AppendUnstructuredTokens body [newlineToken]"

definition AppendBlock :: "Body \<Rightarrow> Block \<Rightarrow> Body" where
  "AppendBlock body block = MkBody (children body @ [BlockNode block]) (attrItems body)"

fun childBlocks :: "Node list \<Rightarrow> Block list" where
  "childBlocks [] = []"
| "childBlocks (BlockNode block # nodes) = block # childBlocks nodes"
| "childBlocks (AttributeNode attr # nodes) = childBlocks nodes"
| "childBlocks (TokensNode ts # nodes) = childBlocks nodes"

definition Blocks :: "Body \<Rightarrow> Block list" where
  "Blocks body = childBlocks (children body)"

text \<open>
  \<open>Body.Attributes()\<close> returns a Go map from attribute name to attribute, filled by
  \<open>ret[name] = attr\<close> for every attribute of the item set. The map is an association
  list with distinct keys. Tokens appended with \<open>AppendUnstructuredTokens\<close> are no
  items and contribute nothing; the attributes a \<open>Clear\<close> took out of the child list
  are still items and are still returned.
\<close>

fun collectAttributes ::
  "Attribute list \<Rightarrow> (string \<times> Attribute) list \<Rightarrow> (string \<times> Attribute) list" where
  "collectAttributes [] ret = ret"
| "collectAttributes (attr # attrs) ret =
     collectAttributes attrs (AList.update (attrName attr) attr ret)"

definition Attributes :: "Body \<Rightarrow> (string \<times> Attribute) list" where
  "Attributes body = collectAttributes (attrItems body) []"

text \<open>
  The attributes among a list of nodes, in their order, and a body as the parser
  returns it: its attribute items are the attributes of its child list.
\<close>

fun attributesOf :: "Node list \<Rightarrow> Attribute list" where
  "attributesOf [] = []"
| "attributesOf (AttributeNode attr # nodes) = attr # attributesOf nodes"
| "attributesOf (BlockNode block # nodes) = attributesOf nodes"
| "attributesOf (TokensNode ts # nodes) = attributesOf nodes"

definition parsedBody :: "Node list \<Rightarrow> Body" where
  "parsedBody nodes = MkBody nodes (attributesOf nodes)"

subsection \<open>Unspecified orders of the Go runtime\<close>

text \<open>
  The order in which \<open>for name := range attrs\<close> visits the keys of a map is not
  specified by Go and changes from run to run. A run is given a seed; \<open>shuffle\<close> turns
  the seed into a permutation of the keys (every seed gives a permutation, and every
  permutation is given by some seed), and the loop visits the keys in that order.
\<close>

fun shuffle :: "nat list \<Rightarrow> 'a list \<Rightarrow> 'a list" where
  "shuffle [] xs = xs"
| "shuffle (s # seed) [] = []"
| "shuffle (s # seed) (x # xs) =
     (let i = s mod Suc (length xs)
      in (x # xs) ! i # shuffle seed (take i (x # xs) @ drop (Suc i) (x # xs)))"

definition rangeKeys :: "nat list \<Rightarrow> (string \<times> 'v) list \<Rightarrow> string list" where
  "rangeKeys seed m = shuffle seed (map fst m)"

text \<open>
  \<open>sort.Strings\<close> sorts by the byte-wise order of Go strings, which is the
  lexicographic order of \<open>char list\<close> over the order of \<open>char\<close> by code.
  \<open>sort.Slice\<close> is documented as not stable: elements that compare equal may come out
  in any order. Its result is the sorted list of some permutation of its argument,
  the permutation again chosen by a seed.
\<close>

definition sortStrings :: "string list \<Rightarrow> string list" where
  "sortStrings names = sort names"

definition sortSlice :: "nat list \<Rightarrow> SortableBlock list \<Rightarrow> SortableBlock list" where
  "sortSlice seed sbs = sort_key Name (shuffle seed sbs)"

section \<open>The token-trim step\<close>

text \<open>
  The same two loops stand at lines 54-60, 87-93, 141-147, 162-168 and 202-208:
  \<open>start\<close> moves right over newline tokens, \<open>end\<close> moves left over them, and the
  slice \<open>tokens[start:end]\<close> is what is appended.
\<close>

function skipLeading :: "Token list \<Rightarrow> nat \<Rightarrow> nat \<Rightarrow> panic + nat" where
  "skipLeading tokens start end' =
     (if start < end' then
        (case index tokens start of
           Inl p \<Rightarrow> Inl p
         | Inr t \<Rightarrow>
             if Type t = TokenNewline then skipLeading tokens (start + 1) end'
             else Inr start)
      else Inr start)"
  by pat_completeness auto
termination
  by (relation "measure (\<lambda>(tokens, start, end'). end' - start)") auto

function skipTrailing :: "Token list \<Rightarrow> nat \<Rightarrow> nat \<Rightarrow> panic + nat" where
  "skipTrailing tokens start end' =
     (if end' > start then
        (case index tokens (end' - 1) of
           Inl p \<Rightarrow> Inl p
         | Inr t \<Rightarrow>
             if Type t = TokenNewline then skipTrailing tokens start (end' - 1)
             else Inr end')
      else Inr end')"
  by pat_completeness auto
termination
  by (relation "measure (\<lambda>(tokens, start, end'). end' - start)") auto

definition trimTokens :: "Token list \<Rightarrow> panic + Token list" where
  "trimTokens tokens =
     (case skipLeading tokens 0 (length tokens) of
        Inl p \<Rightarrow> Inl p
      | Inr start \<Rightarrow>
          (case skipTrailing tokens start (length tokens) of
             Inl p \<Rightarrow> Inl p
           | Inr end' \<Rightarrow> slice tokens start end'))"

text \<open>The trim as the specification words it: drop the leading run, then the trailing run.\<close>

definition isNewline :: "Token \<Rightarrow> bool" where
  "isNewline t = (Type t = TokenNewline)"

definition trimmed :: "Token list \<Rightarrow> Token list" where
  "trimmed tokens = rev (dropWhile isNewline (rev (dropWhile isNewline tokens)))"

section \<open>The sorters\<close>

text \<open>
  Lines 51-61 (and 84-95, 137-148, 158-170, 198-209): look the attribute up, build its
  tokens, trim them, append them to the body as unstructured tokens.
  \<open>attrs[name]\<close> is nil for a missing key, and \<open>attr.BuildTokens\<close> then panics.
\<close>

definition appendTrimmed ::
  "(string \<times> Attribute) list \<Rightarrow> string \<Rightarrow> Body \<Rightarrow> panic + Body" where
  "appendTrimmed attrs name body =
     (case map_of attrs name of
        None \<Rightarrow> Inl NilPointerDereference
      | Some attr \<Rightarrow>
          (case trimTokens (BuildTokens attr) of
             Inl p \<Rightarrow> Inl p
           | Inr ts \<Rightarrow> Inr (AppendUnstructuredTokens body ts)))"

text \<open>
  The loop of lines 50-65, 83-99 and 157-175 over the sorted names: a newline after
  every attribute but the last (\<open>i+1 < len(names)\<close>).
\<close>

fun appendSortedAttrs ::
  "(string \<times> Attribute) list \<Rightarrow> nat \<Rightarrow> nat \<Rightarrow> string list \<Rightarrow> Body
     \<Rightarrow> panic + Body" where
  "appendSortedAttrs attrs n i [] body = Inr body"
| "appendSortedAttrs attrs n i (name # names) body =
     (case appendTrimmed attrs name body of
        Inl p \<Rightarrow> Inl p
      | Inr body1 \<Rightarrow>
          appendSortedAttrs attrs n (i + 1) names
            (if i + 1 < n then AppendNewline body1 else body1))"

text \<open>The loop of lines 136-150 over \<open>namesFirst\<close>: a newline after every attribute.\<close>

fun appendLeading ::
  "(string \<times> Attribute) list \<Rightarrow> string list \<Rightarrow> Body \<Rightarrow> panic + Body" where
  "appendLeading attrs [] body = Inr body"
| "appendLeading attrs (name # names) body =
     (case appendTrimmed attrs name body of
        Inl p \<Rightarrow> Inl p
      | Inr body1 \<Rightarrow> appendLeading attrs names (AppendNewline body1))"

text \<open>The loop of lines 183-189 over the nested blocks.\<close>

fun appendBlocks :: "nat \<Rightarrow> nat \<Rightarrow> Block list \<Rightarrow> Body \<Rightarrow> Body" where
  "appendBlocks n idx [] body = body"
| "appendBlocks n idx (block # blocks) body =
     appendBlocks n (idx + 1) blocks
       (if idx + 1 < n then AppendNewline (AppendBlock body block)
        else AppendBlock body block)"

text \<open>The switch of lines 119-128, run over the keys in the order the map yields them.\<close>

fun classifyNames ::
  "string list \<Rightarrow> string list \<Rightarrow> bool \<Rightarrow> string list \<Rightarrow> string list \<times> bool \<times> string list" where
  "classifyNames [] namesFirst hasDependsOn names = (namesFirst, hasDependsOn, names)"
| "classifyNames (name # keys) namesFirst hasDependsOn names =
     (if name = ''count'' \<or> name = ''for_each''
        then classifyNames keys (namesFirst @ [name]) hasDependsOn names
      else if name = ''depends_on''
        then classifyNames keys namesFirst True names
      else classifyNames keys namesFirst hasDependsOn (names @ [name]))"

definition setBody :: "Block \<Rightarrow> Body \<Rightarrow> Block" where
  "setBody block body = MkBlock (BlockType block) (Labels block) body"

text \<open>Lines 38-66: the body of one \<open>required_providers\<close> block is rebuilt.\<close>

definition sortRequiredProviders :: "nat list \<Rightarrow> Block \<Rightarrow> panic + Block" where
  "sortRequiredProviders seed b =
     (let body = Body b;
          attrs = Attributes body;
          providerNames = sortStrings (rangeKeys seed attrs);
          body1 = AppendNewline (Clear body)
      in case appendSortedAttrs attrs (length providerNames) 0 providerNames body1 of
           Inl p \<Rightarrow> Inl p
         | Inr body2 \<Rightarrow> Inr (setBody b (AppendNewline body2)))"

text \<open>
  Lines 34-37: the loop over \<open>block.Body().Blocks()\<close>. The blocks are changed in place,
  so each child keeps its position in the child list of the parent body, whose items
  do not change. The map of
  every child is iterated under the same seed: the names are sorted afterwards, and
  the result does not depend on the order (\<open>sortRequiredProviders_seed\<close> below).
\<close>

fun sortRequiredProvidersNodes :: "nat list \<Rightarrow> Node list \<Rightarrow> panic + Node list" where
  "sortRequiredProvidersNodes seed [] = Inr []"
| "sortRequiredProvidersNodes seed (BlockNode b # nodes) =
     (if BlockType b \<noteq> ''required_providers'' then
        (case sortRequiredProvidersNodes seed nodes of
           Inl p \<Rightarrow> Inl p
         | Inr nodes' \<Rightarrow> Inr (BlockNode b # nodes'))
      else
        (case sortRequiredProviders seed b of
           Inl p \<Rightarrow> Inl p
         | Inr b' \<Rightarrow>
             (case sortRequiredProvidersNodes seed nodes of
                Inl p \<Rightarrow> Inl p
              | Inr nodes' \<Rightarrow> Inr (BlockNode b' # nodes'))))"
| "sortRequiredProvidersNodes seed (AttributeNode attr # nodes) =
     (case sortRequiredProvidersNodes seed nodes of
        Inl p \<Rightarrow> Inl p
      | Inr nodes' \<Rightarrow> Inr (AttributeNode attr # nodes'))"
| "sortRequiredProvidersNodes seed (TokensNode ts # nodes) =
     (case sortRequiredProvidersNodes seed nodes of
        Inl p \<Rightarrow> Inl p
      | Inr nodes' \<Rightarrow> Inr (TokensNode ts # nodes'))"

definition sortRequiredProvidersInBlock :: "nat list \<Rightarrow> Block \<Rightarrow> panic + Block" where
  "sortRequiredProvidersInBlock seed block =
     (case sortRequiredProvidersNodes seed (children (Body block)) of
        Inl p \<Rightarrow> Inl p
      | Inr nodes \<Rightarrow> Inr (setBody block (MkBody nodes (attrItems (Body block)))))"

text \<open>Lines 71-101.\<close>

definition sortLocalsBlock :: "nat list \<Rightarrow> Block \<Rightarrow> panic + Block" where
  "sortLocalsBlock seed block =
     (let body = Body block;
          attrs = Attributes body;
          names = sortStrings (rangeKeys seed attrs);
          body1 = AppendNewline (Clear body)
      in case appendSortedAttrs attrs (length names) 0 names body1 of
           Inl p \<Rightarrow> Inl p
         | Inr body2 \<Rightarrow> Inr (setBody block (AppendNewline body2)))"

text \<open>Lines 104-213.\<close>

definition sortResourceParams :: "nat list \<Rightarrow> Block \<Rightarrow> panic + Block" where
  "sortResourceParams seed block =
     (let body = Body block;
          attrs = Attributes body;
          blocks = Blocks body;
          (namesFirst, hasDependsOn, names0) = classifyNames (rangeKeys seed attrs) [] False [];
          names = sortStrings names0;
          body1 = AppendNewline (Clear body)
      in (case appendLeading attrs namesFirst body1 of
            Inl p \<Rightarrow> Inl p
          | Inr body2 \<Rightarrow>
             (let body3 = (if length namesFirst > 0 then AppendNewline body2 else body2)
              in (case appendSortedAttrs attrs (length names) 0 names body3 of
                    Inl p \<Rightarrow> Inl p
                  | Inr body4 \<Rightarrow>
                     (let body5 =
                            (if length blocks > 0 \<and> (length names > 0 \<or> length namesFirst > 0)
                             then AppendNewline (AppendNewline body4) else body4);
                          body6 = appendBlocks (length blocks) 0 blocks body5;
                          r7 = (if hasDependsOn then
                                  appendTrimmed attrs ''depends_on''
                                    (if length blocks > 0 \<or> length names > 0
                                        \<or> length namesFirst > 0
                                     then AppendNewline body6 else body6)
                                else Inr body6)
                      in (case r7 of
                            Inl p \<Rightarrow> Inl p
                          | Inr body7 \<Rightarrow> Inr (setBody block (AppendNewline body7))))))))"

subsection \<open>The top-level pass\<close>

text \<open>
  Lines 220-229: the switch on the kind of every top-level block, in the order of
  \<open>file.Body().Blocks()\<close>. The blocks are changed in place, in the child list of the
  top-level body. The \<open>i\<close>-th block's map iteration runs under the seed \<open>seeds i\<close>.
\<close>

definition sortBlockBody :: "nat list \<Rightarrow> Block \<Rightarrow> panic + Block" where
  "sortBlockBody seed block =
     (if BlockType block = ''terraform'' then sortRequiredProvidersInBlock seed block
      else if BlockType block = ''resource'' then sortResourceParams seed block
      else if BlockType block = ''locals'' then sortLocalsBlock seed block
      else Inr block)"

fun sortBlockBodies :: "(nat \<Rightarrow> nat list) \<Rightarrow> nat \<Rightarrow> Node list \<Rightarrow> panic + Node list" where
  "sortBlockBodies seeds i [] = Inr []"
| "sortBlockBodies seeds i (BlockNode block # nodes) =
     (case sortBlockBody (seeds i) block of
        Inl p \<Rightarrow> Inl p
      | Inr block' \<Rightarrow>
          (case sortBlockBodies seeds (i + 1) nodes of
             Inl p \<Rightarrow> Inl p
           | Inr nodes' \<Rightarrow> Inr (BlockNode block' # nodes')))"
| "sortBlockBodies seeds i (AttributeNode attr # nodes) =
     (case sortBlockBodies seeds i nodes of
        Inl p \<Rightarrow> Inl p
      | Inr nodes' \<Rightarrow> Inr (AttributeNode attr # nodes'))"
| "sortBlockBodies seeds i (TokensNode ts # nodes) =
     (case sortBlockBodies seeds i nodes of
        Inl p \<Rightarrow> Inl p
      | Inr nodes' \<Rightarrow> Inr (TokensNode ts # nodes'))"

text \<open>
  \<open>allowedBlocks\<close> is a \<open>map[string]bool\<close>: a missing key reads as \<open>false\<close>.
\<close>

definition allowed :: "(string \<rightharpoonup> bool) \<Rightarrow> string \<Rightarrow> bool" where
  "allowed allowedBlocks blockType =
     (case allowedBlocks blockType of None \<Rightarrow> False | Some v \<Rightarrow> v)"

text \<open>Lines 237-247.\<close>

fun partitionBlocks ::
  "(string \<rightharpoonup> bool) \<Rightarrow> Block list \<Rightarrow> SortableBlock list \<Rightarrow> Block list
     \<Rightarrow> panic + (SortableBlock list \<times> Block list)" where
  "partitionBlocks allowedBlocks [] sortableItems otherBlocks =
     Inr (sortableItems, otherBlocks)"
| "partitionBlocks allowedBlocks (block # blocks) sortableItems otherBlocks =
     (if allowed allowedBlocks (BlockType block) \<and> length (Labels block) > 0 then
        (case index (Labels block) 0 of
           Inl p \<Rightarrow> Inl p
         | Inr l \<Rightarrow>
             partitionBlocks allowedBlocks blocks
               (sortableItems @ [\<lparr>Name = l, Block = block\<rparr>]) otherBlocks)
      else partitionBlocks allowedBlocks blocks sortableItems (otherBlocks @ [block]))"

text \<open>Lines 255-260; \<open>len(otherBlocks)-1\<close> is computed on Go's signed \<open>int\<close>.\<close>

fun appendOtherBlocks :: "nat \<Rightarrow> nat \<Rightarrow> nat \<Rightarrow> Block list \<Rightarrow> Body \<Rightarrow> Body" where
  "appendOtherBlocks n m i [] body = body"
| "appendOtherBlocks n m i (block # blocks) body =
     appendOtherBlocks n m (i + 1) blocks
       (if int i < int n - 1 \<or> m > 0 then AppendNewline (AppendBlock body block)
        else AppendBlock body block)"

text \<open>Lines 262-267.\<close>

fun appendSortableItems :: "nat \<Rightarrow> nat \<Rightarrow> SortableBlock list \<Rightarrow> Body \<Rightarrow> Body" where
  "appendSortableItems m i [] body = body"
| "appendSortableItems m i (sb # sbs) body =
     appendSortableItems m (i + 1) sbs
       (if int i < int m - 1 then AppendNewline (AppendBlock body (Block sb))
        else AppendBlock body (Block sb))"

text \<open>
  Lines 216-270. \<open>seeds\<close> picks the map iteration order for each top-level block,
  \<open>sortSeed\<close> the order \<open>sort.Slice\<close> leaves equal keys in.
\<close>

definition ProcessAndSortBlocks ::
  "(nat \<Rightarrow> nat list) \<Rightarrow> nat list \<Rightarrow> File \<Rightarrow> (string \<rightharpoonup> bool) \<Rightarrow> panic + File" where
  "ProcessAndSortBlocks seeds sortSeed file allowedBlocks =
     (case sortBlockBodies seeds 0 (children (FileBody file)) of
        Inl p \<Rightarrow> Inl p
      | Inr nodes \<Rightarrow>
          (let body = MkBody nodes (attrItems (FileBody file));
               originalBlocks = Blocks body
           in (case partitionBlocks allowedBlocks originalBlocks [] [] of
                 Inl p \<Rightarrow> Inl p
               | Inr (sortableItems0, otherBlocks) \<Rightarrow>
                   (let sortableItems = sortSlice sortSeed sortableItems0;
                        body1 = Clear body;
                        body2 = appendOtherBlocks (length otherBlocks) (length sortableItems) 0
                                  otherBlocks body1;
                        body3 = appendSortableItems (length sortableItems) 0 sortableItems body2
                    in Inr (MkFile body3)))))"

section \<open>Parsing and formatting\<close>

text \<open>
  \<open>hcl.Diagnostics\<close> is a list of diagnostics, each with a severity;
  \<open>Diagnostics.HasErrors\<close> looks for one of severity \<open>DiagError\<close>.
\<close>

datatype DiagnosticSeverity = DiagInvalid | DiagError | DiagWarning

record Diagnostic =
  Severity :: DiagnosticSeverity
  Summary :: string
  Detail :: string

fun HasErrors :: "Diagnostic list \<Rightarrow> bool" where
  "HasErrors [] = False"
| "HasErrors (diag # d) = (if Severity diag = DiagError then True else HasErrors d)"

text \<open>
  The error built by \<open>fmt.Errorf\<close> with the verb \<open>%w\<close>: its message, and the error it
  wraps (what \<open>errors.Unwrap\<close> returns).
\<close>

record wrapError =
  msg :: string
  unwrap :: "Diagnostic list"

text \<open>
  Lines 13-30. The parser \<open>hclwrite.ParseConfig\<close> and the text \<open>Diagnostics.Error()\<close>
  belong to the library; they are the parameters \<open>ParseConfig\<close> (called with the fixed
  start position line 1, column 1) and \<open>diagsError\<close>. The result is Go's pair
  \<open>(file, err)\<close>, \<open>None\<close> for \<open>nil\<close>.
\<close>

definition ParseHCLContent ::
  "(string \<Rightarrow> string \<Rightarrow> File option \<times> Diagnostic list) \<Rightarrow> (Diagnostic list \<Rightarrow> string)
     \<Rightarrow> string \<Rightarrow> string \<Rightarrow> File option \<times> wrapError option" where
  "ParseHCLContent ParseConfig diagsError src filename =
     (case ParseConfig src filename of
        (file, diags) \<Rightarrow>
          if HasErrors diags then
            (None,
             Some \<lparr>msg = ''error parsing HCL content from '' @ [CHR 0x27] @ filename
                          @ [CHR 0x27] @ '': '' @ diagsError diags,
                   unwrap = diags\<rparr>)
          else (file, None))"

text \<open>
  Lines 273-275: \<open>hclwrite.Format(file.Bytes())\<close>, both functions of the library, neither
  with an error result.
\<close>

definition FormatHCLBytes :: "(string \<Rightarrow> string) \<Rightarrow> (File \<Rightarrow> string) \<Rightarrow> File \<Rightarrow> string" where
  "FormatHCLBytes Format fileBytes file = Format (fileBytes file)"

section \<open>The canonical layouts, as the specification words them\<close>

text \<open>
  A blank-line separator is one newline node; a relocated attribute is the node of its
  trimmed tokens. \<open>separated\<close> puts a newline between consecutive nodes and none at
  the ends, \<open>terminated\<close> puts one after every node.
\<close>

definition newlineNode :: Node where
  "newlineNode = TokensNode [newlineToken]"

definition trimmedNode :: "string \<times> Attribute \<Rightarrow> Node" where
  "trimmedNode entry = TokensNode (trimmed (BuildTokens (snd entry)))"

fun separated :: "Node list \<Rightarrow> Node list" where
  "separated [] = []"
| "separated [x] = [x]"
| "separated (x # y # zs) = x # newlineNode # separated (y # zs)"

fun terminated :: "Node list \<Rightarrow> Node list" where
  "terminated [] = []"
| "terminated (x # xs) = x # newlineNode # terminated xs"

text \<open>A body with nodes appended to its child list.\<close>

definition appendNodes :: "Body \<Rightarrow> Node list \<Rightarrow> Body" where
  "appendNodes body nodes = MkBody (children body @ nodes) (attrItems body)"

text \<open>
  Sections 4.2 and 4.3: a leading newline, the attributes in the order of their names,
  separated by single newlines, a trailing newline.
\<close>

definition canonicalBody :: "(string \<times> Attribute) list \<Rightarrow> Node list" where
  "canonicalBody attrs =
     [newlineNode] @ separated (map trimmedNode (sort_key fst attrs)) @ [newlineNode]"

text \<open>Section 4.4: the three buckets and the five groups of a resource body.\<close>

definition isLeadingName :: "string \<Rightarrow> bool" where
  "isLeadingName name = (name = ''count'' \<or> name = ''for_each'')"

definition isBodyName :: "string \<Rightarrow> bool" where
  "isBodyName name = (\<not> isLeadingName name \<and> name \<noteq> ''depends_on'')"

definition leadingGroup :: "nat list \<Rightarrow> (string \<times> Attribute) list \<Rightarrow> (string \<times> Attribute) list" where
  "leadingGroup seed attrs = filter (\<lambda>e. isLeadingName (fst e)) (shuffle seed attrs)"

definition bodyGroup :: "(string \<times> Attribute) list \<Rightarrow> (string \<times> Attribute) list" where
  "bodyGroup attrs = sort_key fst (filter (\<lambda>e. isBodyName (fst e)) attrs)"

definition dependsOnGroup :: "(string \<times> Attribute) list \<Rightarrow> (string \<times> Attribute) list" where
  "dependsOnGroup attrs = filter (\<lambda>e. fst e = ''depends_on'') attrs"

definition resourceBody ::
  "(string \<times> Attribute) list \<Rightarrow> (string \<times> Attribute) list \<Rightarrow> Block list
     \<Rightarrow> (string \<times> Attribute) list \<Rightarrow> Node list" where
  "resourceBody first ordinary blocks dep =
     [newlineNode]
     @ terminated (map trimmedNode first)
     @ (if first \<noteq> [] then [newlineNode] else [])
     @ separated (map trimmedNode ordinary)
     @ (if blocks \<noteq> [] \<and> (ordinary \<noteq> [] \<or> first \<noteq> []) then [newlineNode, newlineNode] else [])
     @ separated (map BlockNode blocks)
     @ (if dep \<noteq> [] \<and> (blocks \<noteq> [] \<or> ordinary \<noteq> [] \<or> first \<noteq> []) then [newlineNode] else [])
     @ map trimmedNode dep
     @ [newlineNode]"

text \<open>
  The three block-local sorters as functions that cannot fail: the child list is
  replaced by the layout, the items stay.
\<close>

definition requiredProvidersNode :: "Node \<Rightarrow> Node" where
  "requiredProvidersNode node =
     (case node of
        BlockNode b \<Rightarrow>
          if BlockType b = ''required_providers''
          then BlockNode (setBody b
                 (MkBody (canonicalBody (Attributes (Body b))) (attrItems (Body b))))
          else node
      | _ \<Rightarrow> node)"

definition sortedBlock :: "nat list \<Rightarrow> Block \<Rightarrow> Block" where
  "sortedBlock seed block =
     (if BlockType block = ''terraform''
        then setBody block
               (MkBody (map requiredProvidersNode (children (Body block)))
                  (attrItems (Body block)))
      else if BlockType block = ''resource''
        then setBody block
               (MkBody
                  (resourceBody (leadingGroup seed (Attributes (Body block)))
                     (bodyGroup (Attributes (Body block))) (Blocks (Body block))
                     (dependsOnGroup (Attributes (Body block))))
                  (attrItems (Body block)))
      else if BlockType block = ''locals''
        then setBody block
               (MkBody (canonicalBody (Attributes (Body block))) (attrItems (Body block)))
      else block)"

fun sortedNodes :: "(nat \<Rightarrow> nat list) \<Rightarrow> nat \<Rightarrow> Node list \<Rightarrow> Node list" where
  "sortedNodes seeds i [] = []"
| "sortedNodes seeds i (BlockNode block # nodes) =
     BlockNode (sortedBlock (seeds i) block) # sortedNodes seeds (i + 1) nodes"
| "sortedNodes seeds i (AttributeNode attr # nodes) =
     AttributeNode attr # sortedNodes seeds i nodes"
| "sortedNodes seeds i (TokensNode ts # nodes) = TokensNode ts # sortedNodes seeds i nodes"

text \<open>Section 4.5: sortable and other declarations.\<close>

definition isSortable :: "(string \<rightharpoonup> bool) \<Rightarrow> Block \<Rightarrow> bool" where
  "isSortable allowedBlocks block =
     (allowed allowedBlocks (BlockType block) \<and> Labels block \<noteq> [])"

definition firstLabel :: "Block \<Rightarrow> string" where
  "firstLabel block = (case Labels block of [] \<Rightarrow> [] | l # ls \<Rightarrow> l)"

definition sortableItem :: "Block \<Rightarrow> SortableBlock" where
  "sortableItem block = \<lparr>Name = firstLabel block, Block = block\<rparr>"

definition header :: "Block \<Rightarrow> string \<times> string list" where
  "header block = (BlockType block, Labels block)"

text \<open>
  The declarations of the rebuilt top-level body: the other declarations in their
  order, then the sortable ones as \<open>sort.Slice\<close> leaves them.
\<close>

definition emittedBlocks :: "nat list \<Rightarrow> (string \<rightharpoonup> bool) \<Rightarrow> Block list \<Rightarrow> Block list" where
  "emittedBlocks sortSeed allowedBlocks blocks =
     filter (\<lambda>b. \<not> isSortable allowedBlocks b) blocks
     @ map Block (sortSlice sortSeed (map sortableItem (filter (isSortable allowedBlocks) blocks)))"

section \<open>Example inputs\<close>

text \<open>An attribute \<open>n = 1\<close> as the parser builds it, its end of line included.\<close>

definition exampleAttr :: "string \<Rightarrow> Attribute" where
  "exampleAttr n = \<lparr>attrName = n, BuildTokens =
       [\<lparr>Type = TokenIdent, Bytes = n\<rparr>,
        \<lparr>Type = TokenEqual, Bytes = ''=''\<rparr>,
        \<lparr>Type = TokenOther, Bytes = ''1''\<rparr>, newlineToken]\<rparr>"

text \<open>The tokens of that attribute without the end of line.\<close>

definition exampleTokens :: "string \<Rightarrow> Token list" where
  "exampleTokens n =
     [\<lparr>Type = TokenIdent, Bytes = n\<rparr>,
      \<lparr>Type = TokenEqual, Bytes = ''=''\<rparr>,
      \<lparr>Type = TokenOther, Bytes = ''1''\<rparr>]"

text \<open>
  The resource of section 8, with a further attribute and a nested block:
  \<open>name\<close>, \<open>for_each\<close>, \<open>depends_on\<close>, \<open>ami\<close>, a \<open>lifecycle\<close> block, \<open>count\<close>.
\<close>

definition resourceExample :: Block where
  "resourceExample =
     MkBlock ''resource'' [''aws_instance'', ''web'']
       (parsedBody
          [AttributeNode (exampleAttr ''name''), AttributeNode (exampleAttr ''for_each''),
           AttributeNode (exampleAttr ''depends_on''), AttributeNode (exampleAttr ''ami''),
           BlockNode (MkBlock ''lifecycle'' [] (parsedBody [])),
           AttributeNode (exampleAttr ''count'')])"

text \<open>A resource with \<open>count\<close> written before \<open>for_each\<close>.\<close>

definition countForEachExample :: Block where
  "countForEachExample =
     MkBlock ''resource'' [''aws_instance'', ''web'']
       (parsedBody
          [AttributeNode (exampleAttr ''count''), AttributeNode (exampleAttr ''for_each'')])"

text \<open>A \<open>data\<close> block with the attributes \<open>b\<close>, \<open>a\<close>.\<close>

definition dataExample :: Block where
  "dataExample =
     MkBlock ''data'' [''aws_ami'', ''ubuntu'']
       (parsedBody [AttributeNode (exampleAttr ''b''), AttributeNode (exampleAttr ''a'')])"

text \<open>
  A \<open>terraform\<close> block: \<open>required_version\<close>, a \<open>backend\<close> block, and the
  \<open>required_providers\<close> block of section 8 (\<open>aws\<close>, \<open>google\<close>, \<open>azurerm\<close>).
\<close>

definition terraformExample :: Block where
  "terraformExample =
     MkBlock ''terraform'' []
       (parsedBody
          [AttributeNode (exampleAttr ''required_version''),
           BlockNode (MkBlock ''backend'' [''s3'']
             (parsedBody [AttributeNode (exampleAttr ''bucket'')])),
           BlockNode (MkBlock ''required_providers'' []
             (parsedBody
                [AttributeNode (exampleAttr ''aws''), AttributeNode (exampleAttr ''google''),
                 AttributeNode (exampleAttr ''azurerm'')]))])"

text \<open>A \<open>required_providers\<close> block that also holds a comment and a nested block.\<close>

definition providersExample :: Block where
  "providersExample =
     MkBlock ''required_providers'' []
       (parsedBody
          [AttributeNode (exampleAttr ''google''),
           TokensNode [\<lparr>Type = TokenComment, Bytes = ''# pinned''\<rparr>],
           BlockNode (MkBlock ''nested'' [] (parsedBody [])),
           AttributeNode (exampleAttr ''aws'')])"

text \<open>A \<open>terraform\<close> block whose only child is that block.\<close>

definition terraformProvidersExample :: Block where
  "terraformProvidersExample = MkBlock ''terraform'' [] (parsedBody [BlockNode providersExample])"

text \<open>
  The token runs of a child list, and those among them that are not the single newline of
  \<open>AppendNewline\<close>: the runs a sorter appended for relocated attributes.
\<close>

fun unstructuredTokens :: "Node list \<Rightarrow> Token list list" where
  "unstructuredTokens [] = []"
| "unstructuredTokens (TokensNode ts # nodes) = ts # unstructuredTokens nodes"
| "unstructuredTokens (AttributeNode attr # nodes) = unstructuredTokens nodes"
| "unstructuredTokens (BlockNode block # nodes) = unstructuredTokens nodes"

definition relocatedTokens :: "Node list \<Rightarrow> Token list list" where
  "relocatedTokens nodes = filter (\<lambda>ts. ts \<noteq> [newlineToken]) (unstructuredTokens nodes)"

text \<open>
  Two results of the parser: a diagnostic of severity error and no file; a file and no
  diagnostics.
\<close>

definition failingParser :: "string \<Rightarrow> string \<Rightarrow> File option \<times> Diagnostic list" where
  "failingParser src filename =
     (None, [\<lparr>Severity = DiagError, Summary = ''Invalid expression'', Detail = []\<rparr>])"

definition succeedingParser :: "string \<Rightarrow> string \<Rightarrow> File option \<times> Diagnostic list" where
  "succeedingParser src filename =
     (Some (MkFile (parsedBody [AttributeNode (exampleAttr ''x'')])), [])"


text \<open>The document of section 8: \<open>variable "b"\<close>, \<open>variable "a"\<close>, \<open>output "z"\<close>.\<close>

definition variablesExample :: File where
  "variablesExample =
     MkFile (parsedBody
       [BlockNode (MkBlock ''variable'' [''b''] (parsedBody [])),
        BlockNode (MkBlock ''variable'' [''a''] (parsedBody [])),
        BlockNode (MkBlock ''output'' [''z''] (parsedBody []))])"





text \<open>
  Two \<open>data\<close> blocks of one first label, and the two orders in which they can stand
  in an output.
\<close>

definition amiExample :: File where
  "amiExample =
     MkFile (parsedBody
       [BlockNode (MkBlock ''data'' [''aws_ami'', ''b''] (parsedBody [])),
        BlockNode (MkBlock ''data'' [''aws_ami'', ''a''] (parsedBody []))])"

definition amiOrderBA :: File where
  "amiOrderBA =
     MkFile (MkBody
       [BlockNode (MkBlock ''data'' [''aws_ami'', ''b''] (MkBody [] [])),
        TokensNode [newlineToken],
        BlockNode (MkBlock ''data'' [''aws_ami'', ''a''] (MkBody [] []))]
       [])"

definition amiOrderAB :: File where
  "amiOrderAB =
     MkFile (MkBody
       [BlockNode (MkBlock ''data'' [''aws_ami'', ''a''] (MkBody [] [])),
        TokensNode [newlineToken],
        BlockNode (MkBlock ''data'' [''aws_ami'', ''b''] (MkBody [] []))]
       [])"
section \<open>The token-trim step removes the outer newline runs\<close>

declare skipLeading.simps [simp del] skipTrailing.simps [simp del]

lemma skipLeading_eq:
  "start \<le> end' \<Longrightarrow> end' \<le> length tokens \<Longrightarrow>
   skipLeading tokens start end' =
     Inr (start + length (takeWhile isNewline (take (end' - start) (drop start tokens))))"
proof (induction tokens start end' rule: skipLeading.induct)
  case (1 tokens start end')
  show ?case
  proof (cases "start < end'")
    case False
    with "1.prems" show ?thesis by (simp add: skipLeading.simps)
  next
    case True
    with "1.prems" have lt: "start < length tokens" by simp
    have d: "drop start tokens = tokens ! start # drop (Suc start) tokens"
      using lt by (simp add: Cons_nth_drop_Suc)
    have t: "take (end' - start) (drop start tokens) =
             tokens ! start # take (end' - Suc start) (drop (Suc start) tokens)"
      using True by (simp add: d take_Cons')
    have ix: "index tokens start = Inr (tokens ! start)"
      using lt by (simp add: index_def)
    have hn: "isNewline (tokens ! start) = (Type (tokens ! start) = TokenNewline)"
      by (simp add: isNewline_def)
    show ?thesis
    proof (cases "Type (tokens ! start) = TokenNewline")
      case nl: True
      have "skipLeading tokens start end' = skipLeading tokens (start + 1) end'"
        using True lt nl by (subst skipLeading.simps) (simp add: index_def)
      also have "\<dots> = Inr (start + 1 + length (takeWhile isNewline
                     (take (end' - (start + 1)) (drop (start + 1) tokens))))"
        using "1.IH"[OF True ix nl] True "1.prems" by simp
      finally show ?thesis using hn nl by (simp add: t)
    next
      case nnl: False
      have "skipLeading tokens start end' = Inr start"
        using True lt nnl by (subst skipLeading.simps) (simp add: index_def)
      then show ?thesis using hn nnl by (simp add: t)
    qed
  qed
qed

lemma skipTrailing_eq:
  "start \<le> end' \<Longrightarrow> end' \<le> length tokens \<Longrightarrow>
   skipTrailing tokens start end' =
     Inr (end' - length (takeWhile isNewline (rev (take (end' - start) (drop start tokens)))))"
proof (induction tokens start end' rule: skipTrailing.induct)
  case (1 tokens start end')
  show ?case
  proof (cases "start < end'")
    case False
    with "1.prems" show ?thesis by (simp add: skipTrailing.simps)
  next
    case True
    with "1.prems" have lt: "end' - 1 < length tokens" by simp
    have k: "end' - start = Suc (end' - 1 - start)" using True by simp
    have t: "take (end' - start) (drop start tokens) =
             take (end' - 1 - start) (drop start tokens) @ [tokens ! (end' - 1)]"
      using True lt by (subst k) (simp add: take_Suc_conv_app_nth)
    have ix: "index tokens (end' - 1) = Inr (tokens ! (end' - 1))"
      using lt by (simp add: index_def)
    have hn: "isNewline (tokens ! (end' - 1)) = (Type (tokens ! (end' - 1)) = TokenNewline)"
      by (simp add: isNewline_def)
    show ?thesis
    proof (cases "Type (tokens ! (end' - 1)) = TokenNewline")
      case nl: True
      have "skipTrailing tokens start end' = skipTrailing tokens start (end' - 1)"
        using True lt nl by (subst skipTrailing.simps) (simp add: index_def)
      also have "\<dots> = Inr (end' - 1 - length (takeWhile isNewline
                     (rev (take (end' - 1 - start) (drop start tokens)))))"
        using "1.IH"[OF _ ix nl] True "1.prems" by simp
      finally show ?thesis using hn nl by (simp add: t)
    next
      case nnl: False
      have "skipTrailing tokens start end' = Inr end'"
        using True lt nnl by (subst skipTrailing.simps) (simp add: index_def)
      then show ?thesis using hn nnl by (simp add: t)
    qed
  qed
qed

lemma trimTokens_eq: "trimTokens tokens = Inr (trimmed tokens)"
proof -
  let ?D = "dropWhile isNewline tokens"
  let ?s = "length (takeWhile isNewline tokens)"
  let ?k = "length (takeWhile isNewline (rev ?D))"
  have s: "skipLeading tokens 0 (length tokens) = Inr ?s"
    using skipLeading_eq[of 0 "length tokens" tokens] by simp
  have sle: "?s \<le> length tokens" by (simp add: length_takeWhile_le)
  have dD: "drop ?s tokens = ?D" by (simp add: dropWhile_eq_drop)
  have lD: "length ?D = length tokens - ?s" by (simp add: dropWhile_eq_drop)
  have e: "skipTrailing tokens ?s (length tokens) = Inr (length tokens - ?k)"
    using skipTrailing_eq[OF sle, of tokens] by (simp add: dD lD[symmetric])
  have kle: "?k \<le> length ?D" using length_takeWhile_le[of isNewline "rev ?D"] by simp
  have "take (length tokens - ?k - ?s) ?D = take (length ?D - ?k) ?D"
    using lD by (simp add: add.commute)
  also have "\<dots> = rev (drop ?k (rev ?D))" by (simp add: rev_drop)
  also have "\<dots> = rev (dropWhile isNewline (rev ?D))" by (simp add: dropWhile_eq_drop)
  finally have tk: "take (length tokens - ?k - ?s) ?D = trimmed tokens"
    by (simp add: trimmed_def)
  have b: "?s \<le> length tokens - ?k" using kle lD sle by arith
  have "slice tokens ?s (length tokens - ?k) = Inr (trimmed tokens)"
    using b tk by (simp add: slice_def dD)
  then show ?thesis by (simp add: trimTokens_def s e)
qed

lemma rev_split: "xs = rev (dropWhile P (rev xs)) @ rev (takeWhile P (rev xs))"
proof -
  have "rev (takeWhile P (rev xs) @ dropWhile P (rev xs)) = rev (rev xs)"
    by (simp only: takeWhile_dropWhile_id)
  then show ?thesis by (simp only: rev_append rev_rev_ident)
qed

lemma trimmed_decompose:
  "tokens = takeWhile isNewline tokens @ trimmed tokens
            @ rev (takeWhile isNewline (rev (dropWhile isNewline tokens)))"
proof -
  let ?D = "dropWhile isNewline tokens"
  have "?D = trimmed tokens @ rev (takeWhile isNewline (rev ?D))"
    unfolding trimmed_def by (rule rev_split)
  moreover have "tokens = takeWhile isNewline tokens @ ?D" by simp
  ultimately show ?thesis by metis
qed

lemma trimmed_ends:
  assumes "trimmed tokens \<noteq> []"
  shows "\<not> isNewline (hd (trimmed tokens))" and "\<not> isNewline (last (trimmed tokens))"
proof -
  let ?D = "dropWhile isNewline tokens"
  let ?R = "dropWhile isNewline (rev ?D)"
  have R: "?R \<noteq> []" using assms by (simp add: trimmed_def)
  then have "\<not> isNewline (hd ?R)" by (rule hd_dropWhile)
  then show "\<not> isNewline (last (trimmed tokens))"
    using R by (simp add: trimmed_def last_rev)
  have D: "?D \<noteq> []" using R by (cases "?D") simp_all
  then have h: "\<not> isNewline (hd ?D)" by (rule hd_dropWhile)
  have "?D = trimmed tokens @ rev (takeWhile isNewline (rev ?D))"
    unfolding trimmed_def by (rule rev_split)
  then have "hd ?D = hd (trimmed tokens)" using assms by (metis hd_append2)
  then show "\<not> isNewline (hd (trimmed tokens))" using h by simp
qed

text \<open>
  C6. The token-trim step never fails, and its result \<open>ts\<close> is the interior of the
  token sequence: the sequence is \<open>pre @ ts @ post\<close> where \<open>pre\<close> and \<open>post\<close> hold
  newline tokens only, and \<open>ts\<close>, when it is not empty, neither starts nor ends with
  a newline token. So exactly the leading and the trailing run of newline tokens are
  removed, and every token between them (newline, comment or content) is kept, in
  order and unchanged.
\<close>

theorem trimTokens_interior:
  "\<exists>pre ts post.
     trimTokens tokens = Inr ts \<and> tokens = pre @ ts @ post \<and>
     ts = trimmed tokens \<and>
     (\<forall>t \<in> set pre. Type t = TokenNewline) \<and> (\<forall>t \<in> set post. Type t = TokenNewline) \<and>
     (ts \<noteq> [] \<longrightarrow> Type (hd ts) \<noteq> TokenNewline \<and> Type (last ts) \<noteq> TokenNewline)"
proof -
  let ?pre = "takeWhile isNewline tokens"
  let ?post = "rev (takeWhile isNewline (rev (dropWhile isNewline tokens)))"
  have 1: "trimTokens tokens = Inr (trimmed tokens)" by (rule trimTokens_eq)
  have 2: "tokens = ?pre @ trimmed tokens @ ?post" by (rule trimmed_decompose)
  have 3: "\<forall>t \<in> set ?pre. Type t = TokenNewline"
    using set_takeWhileD[of _ isNewline tokens] by (auto simp: isNewline_def)
  have 4: "\<forall>t \<in> set ?post. Type t = TokenNewline"
    using set_takeWhileD[of _ isNewline "rev (dropWhile isNewline tokens)"]
    by (auto simp: isNewline_def)
  have 5: "trimmed tokens \<noteq> [] \<longrightarrow>
           Type (hd (trimmed tokens)) \<noteq> TokenNewline \<and> Type (last (trimmed tokens)) \<noteq> TokenNewline"
    using trimmed_ends[of tokens] by (simp add: isNewline_def)
  from 1 2 3 4 5 show ?thesis by blast
qed

theorem trimTokens_interior_witness:
  "trimTokens
     [\<lparr>Type = TokenNewline, Bytes = [CHR 0x0A]\<rparr>, \<lparr>Type = TokenIdent, Bytes = ''a''\<rparr>,
      \<lparr>Type = TokenNewline, Bytes = [CHR 0x0A]\<rparr>, \<lparr>Type = TokenComment, Bytes = ''# c''\<rparr>,
      \<lparr>Type = TokenNewline, Bytes = [CHR 0x0A]\<rparr>, \<lparr>Type = TokenNewline, Bytes = [CHR 0x0A]\<rparr>]
   = Inr [\<lparr>Type = TokenIdent, Bytes = ''a''\<rparr>, \<lparr>Type = TokenNewline, Bytes = [CHR 0x0A]\<rparr>,
          \<lparr>Type = TokenComment, Bytes = ''# c''\<rparr>]"
  using trimTokens_interior
    [of "[\<lparr>Type = TokenNewline, Bytes = [CHR 0x0A]\<rparr>, \<lparr>Type = TokenIdent, Bytes = ''a''\<rparr>,
      \<lparr>Type = TokenNewline, Bytes = [CHR 0x0A]\<rparr>, \<lparr>Type = TokenComment, Bytes = ''# c''\<rparr>,
      \<lparr>Type = TokenNewline, Bytes = [CHR 0x0A]\<rparr>, \<lparr>Type = TokenNewline, Bytes = [CHR 0x0A]\<rparr>]"]
  by (auto simp: trimmed_def isNewline_def)


section \<open>The loops in closed form\<close>

lemma mset_shuffle: "mset (shuffle seed xs) = mset xs"
proof (induction seed xs rule: shuffle.induct)
  case (3 s seed x xs)
  let ?ys = "x # xs"
  let ?i = "s mod Suc (length xs)"
  have i: "?i < length ?ys" by simp
  have "mset ?ys = mset (take ?i ?ys @ ?ys ! ?i # drop (Suc ?i) ?ys)"
    using id_take_nth_drop[OF i] by simp
  then show ?case using 3 by (simp add: Let_def)
qed simp_all

lemma set_shuffle: "set (shuffle seed xs) = set xs"
  using mset_shuffle[of seed xs] by (metis set_mset_mset)

lemma shuffle_step:
  "ys \<noteq> [] \<Longrightarrow> shuffle (s # seed) ys =
     ys ! (s mod length ys) # shuffle seed (take (s mod length ys) ys @ drop (Suc (s mod length ys)) ys)"
  by (cases ys) (simp_all add: Let_def)

lemma shuffle_map: "map f (shuffle seed xs) = shuffle seed (map f xs)"
proof (induction seed xs rule: shuffle.induct)
  case (3 s seed x xs)
  define ys where "ys = x # xs"
  define i where "i = s mod length ys"
  have ne: "ys \<noteq> []" and i: "i < length ys" by (simp_all add: ys_def i_def)
  have i': "i = s mod Suc (length xs)" by (simp add: i_def ys_def)
  have IH: "map f (shuffle seed (take i ys @ drop (Suc i) ys)) =
            shuffle seed (map f (take i ys @ drop (Suc i) ys))"
    using "3.IH"[OF i'] by (simp only: ys_def)
  have "map f (shuffle (s # seed) ys) =
        f (ys ! i) # map f (shuffle seed (take i ys @ drop (Suc i) ys))"
    using shuffle_step[OF ne, of s seed] by (simp add: i_def)
  also have "\<dots> = map f ys ! i # shuffle seed (take i (map f ys) @ drop (Suc i) (map f ys))"
    using i by (simp add: IH take_map drop_map)
  also have "\<dots> = shuffle (s # seed) (map f ys)"
    using shuffle_step[of "map f ys" s seed] ne by (simp add: i_def)
  finally show ?case by (simp only: ys_def)
qed simp_all

text \<open>
  The seeds reach every order the runtime may choose: every permutation of the keys,
  and every sorted permutation of the slice.
\<close>

lemma shuffle_complete: "mset ys = mset xs \<Longrightarrow> \<exists>seed. shuffle seed xs = ys"
proof (induction ys arbitrary: xs)
  case Nil
  then have "shuffle [] xs = []" by simp
  then show ?case ..
next
  case (Cons y ys)
  have "y \<in> set xs" using Cons.prems by (metis list.set_intros(1) set_mset_mset)
  then obtain i where i: "i < length xs" and y: "xs ! i = y"
    by (auto simp: in_set_conv_nth)
  let ?xs' = "take i xs @ drop (Suc i) xs"
  have "mset xs = add_mset y (mset ?xs')"
    using id_take_nth_drop[OF i] y by (metis mset.simps(2) mset_append union_mset_add_mset_right)
  then have "mset ys = mset ?xs'" using Cons.prems by simp
  then obtain seed where s: "shuffle seed ?xs' = ys" using Cons.IH by blast
  have ne: "xs \<noteq> []" using i by auto
  have "shuffle (i # seed) xs = y # ys"
    using shuffle_step[OF ne, of i seed] i y s by simp
  then show ?case ..
qed

lemma sortSlice_complete:
  assumes "mset ys = mset sbs" and "sorted (map Name ys)"
  shows "\<exists>seed. sortSlice seed sbs = ys"
proof -
  obtain seed where "shuffle seed sbs = ys" using shuffle_complete[OF assms(1)] by blast
  moreover have "sort_key Name ys = ys" using assms(2) by (rule sort_key_id_if_sorted)
  ultimately have "sortSlice seed sbs = ys" by (simp add: sortSlice_def)
  then show ?thesis ..
qed

lemma distinct_collectAttributes:
  "distinct (map fst ret) \<Longrightarrow> distinct (map fst (collectAttributes attrs ret))"
  by (induction attrs ret rule: collectAttributes.induct) (simp_all add: distinct_update)

lemma distinct_Attributes: "distinct (map fst (Attributes body))"
  by (simp add: Attributes_def distinct_collectAttributes)

lemma map_of_entry:
  "distinct (map fst attrs) \<Longrightarrow> e \<in> set attrs \<Longrightarrow> map_of attrs (fst e) = Some (snd e)"
  by (cases e) simp

text \<open>The body operations in terms of \<open>appendNodes\<close>.\<close>

lemma appendNodes_Nil: "appendNodes body [] = body"
  by (simp add: appendNodes_def)

lemma appendNodes_appendNodes:
  "appendNodes (appendNodes body xs) ys = appendNodes body (xs @ ys)"
  by (simp add: appendNodes_def)

lemma AppendNewline_appendNodes: "AppendNewline body = appendNodes body [newlineNode]"
  by (simp add: AppendNewline_def AppendUnstructuredTokens_def appendNodes_def newlineNode_def)

lemma AppendBlock_appendNodes: "AppendBlock body block = appendNodes body [BlockNode block]"
  by (simp add: AppendBlock_def appendNodes_def)

lemma appendNodes_Clear: "appendNodes (Clear body) nodes = MkBody nodes (attrItems body)"
  by (simp add: appendNodes_def Clear_def)

lemma appendNodes_MkBody: "appendNodes (MkBody xs its) ys = MkBody (xs @ ys) its"
  by (simp add: appendNodes_def)

lemma appendTrimmed_entry:
  "map_of attrs (fst e) = Some (snd e) \<Longrightarrow>
   appendTrimmed attrs (fst e) body = Inr (appendNodes body [trimmedNode e])"
  by (simp add: appendTrimmed_def trimTokens_eq AppendUnstructuredTokens_def trimmedNode_def
      appendNodes_def)

lemma separated_Cons: "separated (x # xs) = x # (if xs = [] then [] else newlineNode # separated xs)"
  by (cases xs) simp_all

lemma appendSortedAttrs_entries:
  "(\<And>e. e \<in> set es \<Longrightarrow> map_of attrs (fst e) = Some (snd e)) \<Longrightarrow>
   appendSortedAttrs attrs (i + length es) i (map fst es) body =
     Inr (appendNodes body (separated (map trimmedNode es)))"
proof (induction es arbitrary: i body)
  case Nil
  then show ?case by (simp add: appendNodes_Nil)
next
  case (Cons e es)
  have e: "appendTrimmed attrs (fst e) body = Inr (appendNodes body [trimmedNode e])"
    using Cons.prems by (simp add: appendTrimmed_entry)
  have r: "appendSortedAttrs attrs (Suc i + length es) (Suc i) (map fst es) body' =
           Inr (appendNodes body' (separated (map trimmedNode es)))" for body'
    using Cons.IH[of "Suc i" body'] Cons.prems by simp
  show ?case
    using e r
    by (cases es) (simp_all add: AppendNewline_appendNodes appendNodes_appendNodes)
qed

lemma appendLeading_entries:
  "(\<And>e. e \<in> set es \<Longrightarrow> map_of attrs (fst e) = Some (snd e)) \<Longrightarrow>
   appendLeading attrs (map fst es) body =
     Inr (appendNodes body (terminated (map trimmedNode es)))"
proof (induction es arbitrary: body)
  case Nil
  then show ?case by (simp add: appendNodes_Nil)
next
  case (Cons e es)
  have e: "appendTrimmed attrs (fst e) body = Inr (appendNodes body [trimmedNode e])"
    using Cons.prems by (simp add: appendTrimmed_entry)
  show ?case
    using e Cons.IH[of "AppendNewline (appendNodes body [trimmedNode e])"] Cons.prems
    by (simp add: AppendNewline_appendNodes appendNodes_appendNodes)
qed

lemma appendBlocks_eq:
  "appendBlocks (idx + length blocks) idx blocks body =
     appendNodes body (separated (map BlockNode blocks))"
proof (induction blocks arbitrary: idx body)
  case Nil
  then show ?case by (simp add: appendNodes_Nil)
next
  case (Cons b blocks)
  show ?case
    using Cons.IH[of "Suc idx"]
    by (cases blocks)
       (simp_all add: AppendNewline_appendNodes AppendBlock_appendNodes appendNodes_appendNodes)
qed

lemma sort_keys_eq:
  assumes m: "mset keys = mset (map fst es)"
  shows "sort keys = map fst (sort_key fst es)"
proof -
  have "mset (map fst (sort_key fst es)) = mset keys" using m by simp
  moreover have "sorted (map fst (sort_key fst es))" by simp
  ultimately show ?thesis by (rule properties_for_sort)
qed

lemma sortLocalsBlock_eq:
  "sortLocalsBlock seed block =
     Inr (setBody block (MkBody (canonicalBody (Attributes (Body block))) (attrItems (Body block))))"
proof -
  let ?attrs = "Attributes (Body block)"
  let ?es = "sort_key fst ?attrs"
  have d: "distinct (map fst ?attrs)" by (rule distinct_Attributes)
  have n: "sortStrings (rangeKeys seed ?attrs) = map fst ?es"
    unfolding sortStrings_def rangeKeys_def
    by (rule sort_keys_eq) (simp add: mset_shuffle)
  have l: "\<And>e. e \<in> set ?es \<Longrightarrow> map_of ?attrs (fst e) = Some (snd e)"
    using d by (simp add: map_of_entry)
  have "appendSortedAttrs ?attrs (0 + length ?es) 0 (map fst ?es) body =
        Inr (appendNodes body (separated (map trimmedNode ?es)))" for body
    by (rule appendSortedAttrs_entries) (rule l)
  then show ?thesis
    by (simp add: sortLocalsBlock_def n Let_def canonicalBody_def AppendNewline_appendNodes
        appendNodes_appendNodes appendNodes_Clear appendNodes_MkBody)
qed

lemma sortRequiredProviders_eq:
  "sortRequiredProviders seed b =
     Inr (setBody b (MkBody (canonicalBody (Attributes (Body b))) (attrItems (Body b))))"
proof -
  let ?attrs = "Attributes (Body b)"
  let ?es = "sort_key fst ?attrs"
  have d: "distinct (map fst ?attrs)" by (rule distinct_Attributes)
  have n: "sortStrings (rangeKeys seed ?attrs) = map fst ?es"
    unfolding sortStrings_def rangeKeys_def
    by (rule sort_keys_eq) (simp add: mset_shuffle)
  have l: "\<And>e. e \<in> set ?es \<Longrightarrow> map_of ?attrs (fst e) = Some (snd e)"
    using d by (simp add: map_of_entry)
  have "appendSortedAttrs ?attrs (0 + length ?es) 0 (map fst ?es) body =
        Inr (appendNodes body (separated (map trimmedNode ?es)))" for body
    by (rule appendSortedAttrs_entries) (rule l)
  then show ?thesis
    by (simp add: sortRequiredProviders_def n Let_def canonicalBody_def AppendNewline_appendNodes
        appendNodes_appendNodes appendNodes_Clear appendNodes_MkBody)
qed

lemma sortRequiredProviders_seed:
  "sortRequiredProviders seed b = sortRequiredProviders seed' b"
  by (simp only: sortRequiredProviders_eq)

lemma sortRequiredProvidersNodes_eq:
  "sortRequiredProvidersNodes seed nodes = Inr (map requiredProvidersNode nodes)"
  by (induction seed nodes rule: sortRequiredProvidersNodes.induct)
     (simp_all add: requiredProvidersNode_def sortRequiredProviders_eq)

lemma sortRequiredProvidersInBlock_eq:
  "sortRequiredProvidersInBlock seed block =
     Inr (setBody block
       (MkBody (map requiredProvidersNode (children (Body block))) (attrItems (Body block))))"
  by (simp add: sortRequiredProvidersInBlock_def sortRequiredProvidersNodes_eq)

lemma classifyNames_eq:
  "classifyNames keys namesFirst hasDependsOn names =
     (namesFirst @ filter isLeadingName keys,
      hasDependsOn \<or> ''depends_on'' \<in> set keys,
      names @ filter isBodyName keys)"
  by (induction keys namesFirst hasDependsOn names rule: classifyNames.induct)
     (auto simp: isLeadingName_def isBodyName_def)

lemma leadingGroup_keys:
  "filter isLeadingName (rangeKeys seed attrs) = map fst (leadingGroup seed attrs)"
  by (simp add: rangeKeys_def leadingGroup_def shuffle_map[symmetric] filter_map comp_def)

lemma mset_filter_shuffle: "mset (filter P (shuffle seed xs)) = mset (filter P xs)"
  by (simp add: mset_shuffle)

lemma bodyGroup_keys:
  "sortStrings (filter isBodyName (rangeKeys seed attrs)) = map fst (bodyGroup attrs)"
proof -
  have "filter isBodyName (map fst attrs) = map fst (filter (\<lambda>e. isBodyName (fst e)) attrs)"
    by (simp add: filter_map comp_def)
  then have "mset (filter isBodyName (rangeKeys seed attrs)) =
        mset (map fst (filter (\<lambda>e. isBodyName (fst e)) attrs))"
    unfolding rangeKeys_def by (simp only: mset_filter_shuffle)
  then show ?thesis
    unfolding sortStrings_def bodyGroup_def by (rule sort_keys_eq)
qed

lemma filter_key_empty: "(filter (\<lambda>e. fst e = k) attrs = []) = (k \<notin> set (map fst attrs))"
  by (induction attrs) auto

lemma dependsOn_keys:
  "(''depends_on'' \<in> set (rangeKeys seed attrs)) = (dependsOnGroup attrs \<noteq> [])"
  unfolding rangeKeys_def dependsOnGroup_def set_shuffle filter_key_empty by simp

lemma filter_key_cases:
  "distinct (map fst attrs) \<Longrightarrow>
   filter (\<lambda>e. fst e = k) attrs = [] \<or>
   (\<exists>a. filter (\<lambda>e. fst e = k) attrs = [(k, a)] \<and> map_of attrs k = Some a)"
proof (induction attrs)
  case Nil
  then show ?case by simp
next
  case (Cons e attrs)
  obtain k' a where e: "e = (k', a)" by (cases e)
  show ?case
  proof (cases "k' = k")
    case True
    then have "k \<notin> set (map fst attrs)" using Cons.prems e by simp
    then have "filter (\<lambda>e. fst e = k) attrs = []" by (simp add: filter_key_empty)
    then show ?thesis using True e by simp
  next
    case False
    then show ?thesis using Cons e by auto
  qed
qed

lemma dependsOnGroup_cases:
  "distinct (map fst attrs) \<Longrightarrow>
   dependsOnGroup attrs = [] \<or>
   (\<exists>a. dependsOnGroup attrs = [(''depends_on'', a)] \<and> map_of attrs ''depends_on'' = Some a)"
  unfolding dependsOnGroup_def by (rule filter_key_cases)

lemma sortResourceParams_eq:
  "sortResourceParams seed block =
     Inr (setBody block
       (MkBody
          (resourceBody (leadingGroup seed (Attributes (Body block)))
             (bodyGroup (Attributes (Body block))) (Blocks (Body block))
             (dependsOnGroup (Attributes (Body block))))
          (attrItems (Body block))))"
proof -
  let ?attrs = "Attributes (Body block)"
  let ?first = "leadingGroup seed ?attrs"
  let ?ordinary = "bodyGroup ?attrs"
  let ?blocks = "Blocks (Body block)"
  let ?dep = "dependsOnGroup ?attrs"
  have d: "distinct (map fst ?attrs)" by (rule distinct_Attributes)
  have c: "classifyNames (rangeKeys seed ?attrs) [] False [] =
           (map fst ?first, ?dep \<noteq> [], filter isBodyName (rangeKeys seed ?attrs))"
    by (simp add: classifyNames_eq leadingGroup_keys dependsOn_keys)
  have n: "sortStrings (filter isBodyName (rangeKeys seed ?attrs)) = map fst ?ordinary"
    by (rule bodyGroup_keys)
  have lf: "\<And>e. e \<in> set ?first \<Longrightarrow> map_of ?attrs (fst e) = Some (snd e)"
    using d by (simp add: leadingGroup_def set_shuffle map_of_entry)
  have lo: "\<And>e. e \<in> set ?ordinary \<Longrightarrow> map_of ?attrs (fst e) = Some (snd e)"
    using d by (simp add: bodyGroup_def map_of_entry)
  have a1: "appendLeading ?attrs (map fst ?first) body =
            Inr (appendNodes body (terminated (map trimmedNode ?first)))" for body
    by (rule appendLeading_entries) (rule lf)
  have a2: "appendSortedAttrs ?attrs (length ?ordinary) 0 (map fst ?ordinary) body =
            Inr (appendNodes body (separated (map trimmedNode ?ordinary)))" for body
    using appendSortedAttrs_entries[of ?ordinary ?attrs 0 body] lo by simp
  have a3: "appendBlocks (length ?blocks) 0 ?blocks body =
            appendNodes body (separated (map BlockNode ?blocks))" for body
    using appendBlocks_eq[of 0 ?blocks body] by simp
  have a4: "?dep \<noteq> [] \<Longrightarrow>
            appendTrimmed ?attrs ''depends_on'' body =
              Inr (appendNodes body (map trimmedNode ?dep))" for body
    using dependsOnGroup_cases[OF d] appendTrimmed_entry[of ?attrs "(''depends_on'', a)" body for a]
    by auto
  show ?thesis
    unfolding sortResourceParams_def Let_def c prod.case n
    by (simp add: a1 a2 a3 a4 resourceBody_def AppendNewline_appendNodes
        appendNodes_appendNodes appendNodes_Clear appendNodes_MkBody)
qed

lemma sortBlockBody_eq: "sortBlockBody seed block = Inr (sortedBlock seed block)"
  by (simp add: sortBlockBody_def sortedBlock_def sortRequiredProvidersInBlock_eq
      sortResourceParams_eq sortLocalsBlock_eq)

lemma sortBlockBodies_eq: "sortBlockBodies seeds i nodes = Inr (sortedNodes seeds i nodes)"
  by (induction seeds i nodes rule: sortBlockBodies.induct) (simp_all add: sortBlockBody_eq)

lemma partitionBlocks_eq:
  "partitionBlocks allowedBlocks blocks sortableItems otherBlocks =
     Inr (sortableItems @ map sortableItem (filter (isSortable allowedBlocks) blocks),
          otherBlocks @ filter (\<lambda>b. \<not> isSortable allowedBlocks b) blocks)"
proof (induction allowedBlocks blocks sortableItems otherBlocks rule: partitionBlocks.induct)
  case (1 allowedBlocks sortableItems otherBlocks)
  then show ?case by simp
next
  case (2 allowedBlocks block blocks sortableItems otherBlocks)
  show ?case
  proof (cases "isSortable allowedBlocks block")
    case True
    then obtain l ls where l: "Labels block = l # ls"
      by (cases "Labels block") (simp_all add: isSortable_def)
    have ix: "index (Labels block) 0 = Inr l" by (simp add: index_def l)
    have si: "sortableItem block = \<lparr>Name = l, Block = block\<rparr>"
      by (simp add: sortableItem_def firstLabel_def l)
    show ?thesis using True "2.IH"(1)[OF _ ix] ix si l by (simp add: isSortable_def)
  next
    case False
    then show ?thesis using "2.IH"(2) by (auto simp: isSortable_def)
  qed
qed

lemma appendOtherBlocks_eq:
  "appendOtherBlocks (i + length blocks) m i blocks body =
     appendNodes body (if m > 0 then terminated (map BlockNode blocks)
                       else separated (map BlockNode blocks))"
proof (induction blocks arbitrary: i body)
  case Nil
  then show ?case by (simp add: appendNodes_Nil)
next
  case (Cons b blocks)
  show ?case
    using Cons.IH[of "Suc i"]
    by (cases blocks)
       (simp_all add: AppendNewline_appendNodes AppendBlock_appendNodes appendNodes_appendNodes)
qed

lemma appendSortableItems_eq:
  "appendSortableItems (i + length sbs) i sbs body =
     appendNodes body (separated (map BlockNode (map Block sbs)))"
proof (induction sbs arbitrary: i body)
  case Nil
  then show ?case by (simp add: appendNodes_Nil)
next
  case (Cons sb sbs)
  show ?case
    using Cons.IH[of "Suc i"]
    by (cases sbs)
       (simp_all add: AppendNewline_appendNodes AppendBlock_appendNodes appendNodes_appendNodes)
qed

lemma separated_append:
  "ys \<noteq> [] \<Longrightarrow> terminated xs @ separated ys = separated (xs @ ys)"
  by (induction xs) (simp_all add: separated_Cons)

lemma length_sortSlice: "length (sortSlice seed sbs) = length sbs"
  using mset_shuffle[of seed sbs] by (metis sortSlice_def length_sort size_mset)

lemma ProcessAndSortBlocks_eq:
  "ProcessAndSortBlocks seeds sortSeed file allowedBlocks =
     Inr (MkFile (MkBody
       (separated (map BlockNode
          (emittedBlocks sortSeed allowedBlocks
             (childBlocks (sortedNodes seeds 0 (children (FileBody file)))))))
       (attrItems (FileBody file))))"
proof -
  let ?bs = "childBlocks (sortedNodes seeds 0 (children (FileBody file)))"
  let ?others = "filter (\<lambda>b. \<not> isSortable allowedBlocks b) ?bs"
  let ?items = "sortSlice sortSeed (map sortableItem (filter (isSortable allowedBlocks) ?bs))"
  have a1: "appendOtherBlocks (length ?others) (length ?items) 0 ?others body =
            appendNodes body (if ?items \<noteq> [] then terminated (map BlockNode ?others)
                              else separated (map BlockNode ?others))" for body
    using appendOtherBlocks_eq[of 0 ?others "length ?items" body] by simp
  have a2: "appendSortableItems (length ?items) 0 ?items body =
            appendNodes body (separated (map BlockNode (map Block ?items)))" for body
    using appendSortableItems_eq[of 0 ?items body] by simp
  have "appendSortableItems (length ?items) 0 ?items
          (appendOtherBlocks (length ?others) (length ?items) 0 ?others body) =
        appendNodes body (separated (map BlockNode (?others @ map Block ?items)))" for body
  proof (cases "?items = []")
    case True
    then show ?thesis using a1 a2 by (simp add: appendNodes_appendNodes)
  next
    case False
    then have "map BlockNode (map Block ?items) \<noteq> []" by simp
    from separated_append[OF this, of "map BlockNode ?others"] False a1 a2
    show ?thesis by (simp add: appendNodes_appendNodes)
  qed
  then show ?thesis
    by (simp add: ProcessAndSortBlocks_def sortBlockBodies_eq partitionBlocks_eq Let_def
        Blocks_def appendNodes_Clear appendNodes_MkBody emittedBlocks_def)
qed

lemma header_sortedBlock: "header (sortedBlock seed block) = header block"
  by (simp add: sortedBlock_def header_def setBody_def)

lemma childBlocks_sortedNodes:
  "childBlocks (sortedNodes seeds i nodes) =
     map (\<lambda>(k, b). sortedBlock (seeds k) b) (enumerate i (childBlocks nodes))"
  by (induction seeds i nodes rule: sortedNodes.induct) simp_all

section \<open>The top-level declaration sorter\<close>

lemma map_header_sortedNodes:
  "map header (childBlocks (sortedNodes seeds i nodes)) = map header (childBlocks nodes)"
  by (induction seeds i nodes rule: sortedNodes.induct) (simp_all add: header_sortedBlock)

lemma Block_sortableItem: "map Block (map sortableItem blocks) = blocks"
  by (induction blocks) (simp_all add: sortableItem_def)

lemma mset_sortSlice: "mset (sortSlice seed sbs) = mset sbs"
  by (simp add: sortSlice_def mset_shuffle)

lemma sorted_sortSlice: "sorted (map Name (sortSlice seed sbs))"
  by (simp add: sortSlice_def)

lemma Name_sortableItems:
  assumes "set sbs \<subseteq> sortableItem ` A"
  shows "map firstLabel (map Block sbs) = map Name sbs"
proof -
  have "firstLabel (Block sb) = Name sb" if "sb \<in> set sbs" for sb
    using that assms by (auto simp: sortableItem_def)
  then show ?thesis by simp
qed

text \<open>
  C1. Whatever the runtime's orders, the pass returns a file. With \<open>decls\<close> the
  top-level declarations after the block-local sorters (which change neither kind nor
  labels), the rebuilt top-level body is: the declarations that are not sortable, in
  their original relative order, then the sortable ones (kind in the allow-set and at
  least one label) in the order of their first labels, with one newline between
  consecutive declarations and none after the last; these are the children of the
  body, whose items are not touched.
\<close>

theorem ProcessAndSortBlocks_top_level:
  "\<exists>decls others sortables.
     decls = map (\<lambda>(k, b). sortedBlock (seeds k) b) (enumerate 0 (Blocks (FileBody file))) \<and>
     map header decls = map header (Blocks (FileBody file)) \<and>
     others = filter (\<lambda>b. \<not> (allowed allowedBlocks (BlockType b) \<and> Labels b \<noteq> [])) decls \<and>
     mset sortables = mset (filter (\<lambda>b. allowed allowedBlocks (BlockType b) \<and> Labels b \<noteq> []) decls) \<and>
     sorted (map firstLabel sortables) \<and>
     ProcessAndSortBlocks seeds sortSeed file allowedBlocks =
       Inr (MkFile (MkBody (separated (map BlockNode (others @ sortables)))
                      (attrItems (FileBody file))))"
proof -
  let ?decls = "childBlocks (sortedNodes seeds 0 (children (FileBody file)))"
  let ?items = "sortSlice sortSeed (map sortableItem (filter (isSortable allowedBlocks) ?decls))"
  have 1: "?decls = map (\<lambda>(k, b). sortedBlock (seeds k) b) (enumerate 0 (Blocks (FileBody file)))"
    unfolding Blocks_def by (rule childBlocks_sortedNodes)
  have 2: "map header ?decls = map header (Blocks (FileBody file))"
    unfolding Blocks_def by (rule map_header_sortedNodes)
  have "mset (map Block ?items) =
        mset (map Block (map sortableItem (filter (isSortable allowedBlocks) ?decls)))"
    by (simp only: mset_map mset_sortSlice)
  then have 4: "mset (map Block ?items) = mset (filter (isSortable allowedBlocks) ?decls)"
    by (simp only: Block_sortableItem)
  have "set ?items \<subseteq> sortableItem ` set (filter (isSortable allowedBlocks) ?decls)"
    using mset_sortSlice[of sortSeed "map sortableItem (filter (isSortable allowedBlocks) ?decls)"]
    by (metis set_map set_mset_mset subset_refl)
  then have "map firstLabel (map Block ?items) = map Name ?items"
    by (rule Name_sortableItems)
  then have 5: "sorted (map firstLabel (map Block ?items))"
    by (simp only: sorted_sortSlice)
  have 6: "ProcessAndSortBlocks seeds sortSeed file allowedBlocks =
           Inr (MkFile (MkBody (separated (map BlockNode
             (filter (\<lambda>b. \<not> isSortable allowedBlocks b) ?decls @ map Block ?items)))
             (attrItems (FileBody file))))"
    by (simp only: ProcessAndSortBlocks_eq emittedBlocks_def)
  from 1 2 4 5 6 show ?thesis
    unfolding isSortable_def by (intro exI conjI) (assumption | rule refl)+
qed

theorem ProcessAndSortBlocks_top_level_witness:
  "ProcessAndSortBlocks (\<lambda>k. []) [] variablesExample [''variable'' \<mapsto> True]
   = Inr (MkFile (MkBody
       [BlockNode (MkBlock ''output'' [''z''] (MkBody [] [])), newlineNode,
        BlockNode (MkBlock ''variable'' [''a''] (MkBody [] [])), newlineNode,
        BlockNode (MkBlock ''variable'' [''b''] (MkBody [] []))] []))"
proof -
  let ?f = variablesExample
  let ?va = "MkBlock ''variable'' [''a''] (MkBody [] [])"
  let ?vb = "MkBlock ''variable'' [''b''] (MkBody [] [])"
  let ?oz = "MkBlock ''output'' [''z''] (MkBody [] [])"
  obtain decls others sortables where
    d: "decls = map (\<lambda>(k, b). sortedBlock [] b) (enumerate 0 (Blocks (FileBody ?f)))" and
    o: "others = filter (\<lambda>b. \<not> (allowed [''variable'' \<mapsto> True] (BlockType b) \<and> Labels b \<noteq> [])) decls" and
    m: "mset sortables = mset (filter (\<lambda>b. allowed [''variable'' \<mapsto> True] (BlockType b) \<and> Labels b \<noteq> []) decls)" and
    s: "sorted (map firstLabel sortables)" and
    r: "ProcessAndSortBlocks (\<lambda>k. []) [] ?f [''variable'' \<mapsto> True] =
       Inr (MkFile (MkBody (separated (map BlockNode (others @ sortables)))
                      (attrItems (FileBody ?f))))"
    using ProcessAndSortBlocks_top_level[of "\<lambda>k. []" ?f "[''variable'' \<mapsto> True]" "[]"] by blast
  have d': "decls = [?vb, ?va, ?oz]"
    by (simp add: d sortedBlock_def variablesExample_def parsedBody_def Blocks_def)
  have o': "others = [?oz]"
    by (simp add: o d' allowed_def)
  have m': "mset sortables = mset [?va, ?vb]"
    by (simp add: m d' allowed_def)
  have "length sortables = 2"
    using m' by (metis length_Cons list.size(3) size_mset One_nat_def Suc_1)
  then obtain x y where xy: "sortables = [x, y]"
    by (auto simp: length_Suc_conv numeral_2_eq_2)
  have "sortables = [?va, ?vb]"
    using m' s unfolding xy by (auto simp: add_eq_conv_ex firstLabel_def)
  then show ?thesis using r o' by (simp add: variablesExample_def parsedBody_def)
qed

section \<open>The resource parameter sorter\<close>

lemma length_filter_key:
  "distinct (map fst attrs) \<Longrightarrow> length (filter (\<lambda>e. fst e = k) attrs) \<le> 1"
  using filter_key_cases[of attrs k] by auto

text \<open>
  C2. The resource sorter never fails and replaces the whole child list of the body
  (the item set, which is not written out, stays) by: a newline; (a)
  the attributes named \<open>count\<close> or \<open>for_each\<close>, a newline after each; (b) the
  attributes with any other name but \<open>depends_on\<close>, in the order of their names, a
  newline between them; (c) the nested blocks in their original order, a newline
  between them; (d) the \<open>depends_on\<close> attribute if there is one; (e) a newline.
  The groups are set apart by additional newlines (one before (b), two before (c), one
  before (d)), and each of these is emitted only when some earlier group is not empty.
\<close>

theorem sortResourceParams_groups:
  "\<exists>first ordinary blocks dep.
     first = leadingGroup seed (Attributes (Body block)) \<and>
     mset first = mset (filter (\<lambda>e. fst e = ''count'' \<or> fst e = ''for_each'')
                          (Attributes (Body block))) \<and>
     ordinary = bodyGroup (Attributes (Body block)) \<and>
     mset ordinary = mset (filter (\<lambda>e. fst e \<noteq> ''count'' \<and> fst e \<noteq> ''for_each'' \<and>
                                        fst e \<noteq> ''depends_on'') (Attributes (Body block))) \<and>
     sorted (map fst ordinary) \<and>
     blocks = Blocks (Body block) \<and>
     dep = filter (\<lambda>e. fst e = ''depends_on'') (Attributes (Body block)) \<and>
     length dep \<le> 1 \<and>
     sortResourceParams seed block =
       Inr (MkBlock (BlockType block) (Labels block)
         (MkBody
            ([newlineNode]
             @ terminated (map trimmedNode first)
             @ (if first \<noteq> [] then [newlineNode] else [])
             @ separated (map trimmedNode ordinary)
             @ (if blocks \<noteq> [] \<and> (ordinary \<noteq> [] \<or> first \<noteq> [])
                then [newlineNode, newlineNode] else [])
             @ separated (map BlockNode blocks)
             @ (if dep \<noteq> [] \<and> (blocks \<noteq> [] \<or> ordinary \<noteq> [] \<or> first \<noteq> [])
                then [newlineNode] else [])
             @ map trimmedNode dep
             @ [newlineNode])
            (attrItems (Body block))))"
proof -
  let ?attrs = "Attributes (Body block)"
  have 1: "mset (leadingGroup seed ?attrs) =
           mset (filter (\<lambda>e. fst e = ''count'' \<or> fst e = ''for_each'') ?attrs)"
    unfolding leadingGroup_def isLeadingName_def by (rule mset_filter_shuffle)
  have 2: "mset (bodyGroup ?attrs) =
           mset (filter (\<lambda>e. fst e \<noteq> ''count'' \<and> fst e \<noteq> ''for_each'' \<and>
                              fst e \<noteq> ''depends_on'') ?attrs)"
    by (simp add: bodyGroup_def isBodyName_def isLeadingName_def)
  have 3: "sorted (map fst (bodyGroup ?attrs))" by (simp add: bodyGroup_def)
  have 4: "length (filter (\<lambda>e. fst e = ''depends_on'') ?attrs) \<le> 1"
    by (rule length_filter_key) (rule distinct_Attributes)
  have 5: "sortResourceParams seed block =
      Inr (MkBlock (BlockType block) (Labels block)
         (MkBody
            (resourceBody (leadingGroup seed ?attrs) (bodyGroup ?attrs) (Blocks (Body block))
               (filter (\<lambda>e. fst e = ''depends_on'') ?attrs))
            (attrItems (Body block))))"
    by (simp only: sortResourceParams_eq setBody_def dependsOnGroup_def)
  from 1 2 3 4 5 show ?thesis
    unfolding resourceBody_def by (intro exI conjI) (assumption | rule refl)+
qed

lemma resource_example_groups:
  "leadingGroup [] (Attributes (Body resourceExample)) =
     [(''for_each'', exampleAttr ''for_each''), (''count'', exampleAttr ''count'')]"
  "bodyGroup (Attributes (Body resourceExample)) =
     [(''ami'', exampleAttr ''ami''), (''name'', exampleAttr ''name'')]"
  "Blocks (Body resourceExample) = [MkBlock ''lifecycle'' [] (MkBody [] [])]"
  "attrItems (Body resourceExample) =
     map exampleAttr [''name'', ''for_each'', ''depends_on'', ''ami'', ''count'']"
  "filter (\<lambda>e. fst e = ''depends_on'') (Attributes (Body resourceExample)) =
     [(''depends_on'', exampleAttr ''depends_on'')]"
  by code_simp+

lemma trimmed_exampleAttr:
  "trimmedNode (n, exampleAttr n) = TokensNode (exampleTokens n)"
  by (simp add: trimmedNode_def exampleAttr_def exampleTokens_def trimmed_def isNewline_def
      newlineToken_def)

theorem sortResourceParams_groups_witness:
  "sortResourceParams [] resourceExample =
     Inr (MkBlock ''resource'' [''aws_instance'', ''web'']
       (MkBody
          [newlineNode,
           TokensNode (exampleTokens ''for_each''), newlineNode,
           TokensNode (exampleTokens ''count''), newlineNode,
           newlineNode,
           TokensNode (exampleTokens ''ami''), newlineNode,
           TokensNode (exampleTokens ''name''),
           newlineNode, newlineNode,
           BlockNode (MkBlock ''lifecycle'' [] (MkBody [] [])),
           newlineNode,
           TokensNode (exampleTokens ''depends_on''),
           newlineNode]
          (map exampleAttr [''name'', ''for_each'', ''depends_on'', ''ami'', ''count''])))"
  using sortResourceParams_groups[of "[]" resourceExample]
  unfolding resource_example_groups
  by (simp add: trimmed_exampleAttr) (simp add: resourceExample_def)

text \<open>
  C7 (as amended). The leading group of the rebuilt body holds the attributes named
  \<open>count\<close> or \<open>for_each\<close> in the order in which the loop over the attribute map
  visits them (\<open>rangeKeys\<close>); they are not sorted, and that order is the runtime's
  choice, not the order of the source. \<open>rest\<close> is the remainder of the child list.
\<close>

theorem sortResourceParams_leading_order:
  "\<exists>visited rest.
     visited = shuffle seed (Attributes (Body block)) \<and>
     map fst visited = rangeKeys seed (Attributes (Body block)) \<and>
     mset visited = mset (Attributes (Body block)) \<and>
     sortResourceParams seed block =
       Inr (MkBlock (BlockType block) (Labels block)
         (MkBody
            (newlineNode
             # terminated (map trimmedNode
                 (filter (\<lambda>e. fst e = ''count'' \<or> fst e = ''for_each'') visited))
             @ rest)
            (attrItems (Body block))))"
proof -
  let ?attrs = "Attributes (Body block)"
  have 1: "map fst (shuffle seed ?attrs) = rangeKeys seed ?attrs"
    by (simp add: rangeKeys_def shuffle_map)
  have 2: "mset (shuffle seed ?attrs) = mset ?attrs" by (rule mset_shuffle)
  have "\<exists>rest. sortResourceParams seed block =
       Inr (MkBlock (BlockType block) (Labels block)
         (MkBody
            (newlineNode
             # terminated (map trimmedNode
                 (filter (\<lambda>e. fst e = ''count'' \<or> fst e = ''for_each'') (shuffle seed ?attrs)))
             @ rest)
            (attrItems (Body block))))"
    by (simp add: sortResourceParams_eq setBody_def resourceBody_def leadingGroup_def
        isLeadingName_def)
  with 1 2 show ?thesis by blast
qed

lemma count_for_each_example_visited:
  "filter (\<lambda>e. fst e = ''count'' \<or> fst e = ''for_each'')
     (shuffle [] (Attributes (Body countForEachExample))) =
   [(''count'', exampleAttr ''count''), (''for_each'', exampleAttr ''for_each'')]"
  "rangeKeys [] (Attributes (Body countForEachExample)) = [''count'', ''for_each'']"
  "attrItems (Body countForEachExample) = map exampleAttr [''count'', ''for_each'']"
  by code_simp+

theorem sortResourceParams_leading_order_witness:
  "rangeKeys [] (Attributes (Body countForEachExample)) = [''count'', ''for_each''] \<and>
   (\<exists>rest. sortResourceParams [] countForEachExample =
      Inr (MkBlock ''resource'' [''aws_instance'', ''web'']
        (MkBody
           (newlineNode # TokensNode (exampleTokens ''count'') # newlineNode
            # TokensNode (exampleTokens ''for_each'') # newlineNode # rest)
           (map exampleAttr [''count'', ''for_each'']))))"
proof -
  obtain visited rest where
    v: "visited = shuffle [] (Attributes (Body countForEachExample))" and
    r: "sortResourceParams [] countForEachExample =
       Inr (MkBlock (BlockType countForEachExample) (Labels countForEachExample)
         (MkBody
            (newlineNode
             # terminated (map trimmedNode
                 (filter (\<lambda>e. fst e = ''count'' \<or> fst e = ''for_each'') visited))
             @ rest)
            (attrItems (Body countForEachExample))))"
    using sortResourceParams_leading_order[of "[]" countForEachExample] by blast
  have "sortResourceParams [] countForEachExample =
      Inr (MkBlock ''resource'' [''aws_instance'', ''web'']
        (MkBody
           (newlineNode # TokensNode (exampleTokens ''count'') # newlineNode
            # TokensNode (exampleTokens ''for_each'') # newlineNode # rest)
           (map exampleAttr [''count'', ''for_each''])))"
    using r unfolding v count_for_each_example_visited
    by (simp add: trimmed_exampleAttr) (simp add: countForEachExample_def)
  then show ?thesis using count_for_each_example_visited(2) by blast
qed

text \<open>
  The claim as the specification states it fails: in the source \<open>count\<close> stands before
  \<open>for_each\<close>; when the map yields \<open>for_each\<close> first, so does the rebuilt body.
\<close>

theorem sortResourceParams_source_order_counterexample:
  "map attrName (attributesOf (children (Body countForEachExample))) =
     [''count'', ''for_each''] \<and>
   rangeKeys [1] (Attributes (Body countForEachExample)) = [''for_each'', ''count''] \<and>
   sortResourceParams [1] countForEachExample =
     Inr (MkBlock ''resource'' [''aws_instance'', ''web'']
       (MkBody
          [TokensNode [newlineToken],
           TokensNode (exampleTokens ''for_each''), TokensNode [newlineToken],
           TokensNode (exampleTokens ''count''), TokensNode [newlineToken],
           TokensNode [newlineToken], TokensNode [newlineToken]]
          [exampleAttr ''count'', exampleAttr ''for_each'']))"
  by code_simp

text \<open>
  C3. The switch of \<open>ProcessAndSortBlocks\<close> has no case for \<open>data\<close>: a \<open>data\<close> block
  whose attributes are out of order comes back unchanged, although the parameter
  sorter, given this very block, orders it.
\<close>

theorem ProcessAndSortBlocks_data_unsorted:
  "ProcessAndSortBlocks (\<lambda>k. []) [] (MkFile (parsedBody [BlockNode dataExample])) Map.empty =
     Inr (MkFile (parsedBody [BlockNode dataExample])) \<and>
   children (Body dataExample) =
     [AttributeNode (exampleAttr ''b''), AttributeNode (exampleAttr ''a'')] \<and>
   sortResourceParams [] dataExample =
     Inr (MkBlock ''data'' [''aws_ami'', ''ubuntu'']
       (MkBody
          [TokensNode [newlineToken],
           TokensNode (exampleTokens ''a''), TokensNode [newlineToken],
           TokensNode (exampleTokens ''b''), TokensNode [newlineToken]]
          [exampleAttr ''b'', exampleAttr ''a'']))"
  by code_simp

section \<open>The required-providers sorter\<close>

lemma trimmed_not_newline: "trimmed tokens \<noteq> [newlineToken]"
proof
  assume a: "trimmed tokens = [newlineToken]"
  then have "trimmed tokens \<noteq> []" by simp
  then have "\<not> isNewline (hd (trimmed tokens))" by (rule trimmed_ends)
  then show False by (simp add: a isNewline_def newlineToken_def)
qed

lemma trimmedNode_not_newline: "trimmedNode e \<noteq> newlineNode"
  by (simp add: trimmedNode_def newlineNode_def trimmed_not_newline)

lemma filter_separated:
  "newlineNode \<notin> set xs \<Longrightarrow> filter (\<lambda>n. n \<noteq> newlineNode) (separated xs) = xs"
  by (induction xs rule: separated.induct) auto

lemma set_separated: "set (separated xs) \<subseteq> insert newlineNode (set xs)"
  by (induction xs rule: separated.induct) auto

lemma childBlocks_append: "childBlocks (xs @ ys) = childBlocks xs @ childBlocks ys"
  by (induction xs rule: childBlocks.induct) simp_all

lemma attributesOf_append: "attributesOf (xs @ ys) = attributesOf xs @ attributesOf ys"
  by (induction xs rule: attributesOf.induct) simp_all

lemma childBlocks_separated_trimmed: "childBlocks (separated (map trimmedNode es)) = []"
  by (induction es rule: induct_list012) (simp_all add: trimmedNode_def newlineNode_def)

lemma attributesOf_separated_trimmed: "attributesOf (separated (map trimmedNode es)) = []"
  by (induction es rule: induct_list012) (simp_all add: trimmedNode_def newlineNode_def)

text \<open>
  C4. The sorter run on a block (for \<open>ProcessAndSortBlocks\<close>: on every top-level block
  of kind \<open>terraform\<close>) never fails, keeps kind, labels and items and maps every
  node of the child list by \<open>requiredProvidersNode\<close>, in place: a child block of kind
  \<open>required_providers\<close> gets the child list newline, its attributes in the byte-wise
  lexicographic order of their names with single newlines between them, newline (its
  items stay); a child block of any other kind, an attribute and a token run stay as
  they are.
\<close>

theorem sortRequiredProvidersInBlock_children:
  "sortRequiredProvidersInBlock seed block =
     Inr (MkBlock (BlockType block) (Labels block)
       (MkBody (map requiredProvidersNode (children (Body block))) (attrItems (Body block)))) \<and>
   (BlockType block = ''terraform'' \<longrightarrow>
      sortBlockBody seed block = sortRequiredProvidersInBlock seed block) \<and>
   (\<forall>b. BlockType b = ''required_providers'' \<longrightarrow>
      (\<exists>es. es = sort_key fst (Attributes (Body b)) \<and>
            mset es = mset (Attributes (Body b)) \<and> sorted (map fst es) \<and>
            requiredProvidersNode (BlockNode b) =
              BlockNode (MkBlock ''required_providers'' (Labels b)
                (MkBody ([newlineNode] @ separated (map trimmedNode es) @ [newlineNode])
                   (attrItems (Body b)))))) \<and>
   (\<forall>b. BlockType b \<noteq> ''required_providers'' \<longrightarrow>
      requiredProvidersNode (BlockNode b) = BlockNode b) \<and>
   (\<forall>attr. requiredProvidersNode (AttributeNode attr) = AttributeNode attr) \<and>
   (\<forall>ts. requiredProvidersNode (TokensNode ts) = TokensNode ts)"
proof (intro conjI allI impI)
  show "sortRequiredProvidersInBlock seed block =
     Inr (MkBlock (BlockType block) (Labels block)
       (MkBody (map requiredProvidersNode (children (Body block))) (attrItems (Body block))))"
    by (simp only: sortRequiredProvidersInBlock_eq setBody_def)
next
  assume "BlockType block = ''terraform''"
  then show "sortBlockBody seed block = sortRequiredProvidersInBlock seed block"
    by (simp add: sortBlockBody_def)
next
  fix b assume "BlockType b = ''required_providers''"
  then have "requiredProvidersNode (BlockNode b) =
     BlockNode (MkBlock ''required_providers'' (Labels b)
       (MkBody ([newlineNode] @ separated (map trimmedNode (sort_key fst (Attributes (Body b))))
                @ [newlineNode])
          (attrItems (Body b))))"
    by (simp add: requiredProvidersNode_def setBody_def canonicalBody_def)
  moreover have "mset (sort_key fst (Attributes (Body b))) = mset (Attributes (Body b))"
    by simp
  moreover have "sorted (map fst (sort_key fst (Attributes (Body b))))" by simp
  ultimately show "\<exists>es. es = sort_key fst (Attributes (Body b)) \<and>
            mset es = mset (Attributes (Body b)) \<and> sorted (map fst es) \<and>
            requiredProvidersNode (BlockNode b) =
              BlockNode (MkBlock ''required_providers'' (Labels b)
                (MkBody ([newlineNode] @ separated (map trimmedNode es) @ [newlineNode])
                   (attrItems (Body b))))"
    by blast
next
  fix b assume "BlockType b \<noteq> ''required_providers''"
  then show "requiredProvidersNode (BlockNode b) = BlockNode b"
    by (simp add: requiredProvidersNode_def)
next
  fix attr show "requiredProvidersNode (AttributeNode attr) = AttributeNode attr"
    by (simp add: requiredProvidersNode_def)
next
  fix ts show "requiredProvidersNode (TokensNode ts) = TokensNode ts"
    by (simp add: requiredProvidersNode_def)
qed

lemma terraform_example_nodes:
  "map requiredProvidersNode (children (Body terraformExample)) =
     [AttributeNode (exampleAttr ''required_version''),
      BlockNode (MkBlock ''backend'' [''s3'']
        (MkBody [AttributeNode (exampleAttr ''bucket'')] [exampleAttr ''bucket''])),
      BlockNode (MkBlock ''required_providers'' []
        (MkBody
           [TokensNode [newlineToken],
            TokensNode (exampleTokens ''aws''), TokensNode [newlineToken],
            TokensNode (exampleTokens ''azurerm''), TokensNode [newlineToken],
            TokensNode (exampleTokens ''google''),
            TokensNode [newlineToken]]
           [exampleAttr ''aws'', exampleAttr ''google'', exampleAttr ''azurerm'']))]"
  "attrItems (Body terraformExample) = [exampleAttr ''required_version'']"
  by code_simp+

theorem sortRequiredProvidersInBlock_children_witness:
  "sortRequiredProvidersInBlock [] terraformExample =
     Inr (MkBlock ''terraform'' []
       (MkBody
          [AttributeNode (exampleAttr ''required_version''),
           BlockNode (MkBlock ''backend'' [''s3'']
             (MkBody [AttributeNode (exampleAttr ''bucket'')] [exampleAttr ''bucket''])),
           BlockNode (MkBlock ''required_providers'' []
             (MkBody
                [TokensNode [newlineToken],
                 TokensNode (exampleTokens ''aws''), TokensNode [newlineToken],
                 TokensNode (exampleTokens ''azurerm''), TokensNode [newlineToken],
                 TokensNode (exampleTokens ''google''),
                 TokensNode [newlineToken]]
                [exampleAttr ''aws'', exampleAttr ''google'', exampleAttr ''azurerm'']))]
          [exampleAttr ''required_version''])) \<and>
   sortBlockBody [] terraformExample = sortRequiredProvidersInBlock [] terraformExample"
proof -
  have t: "BlockType terraformExample = ''terraform''" and l: "Labels terraformExample = []"
    by (simp_all add: terraformExample_def)
  from sortRequiredProvidersInBlock_children[of "[]" terraformExample] t
  have "sortRequiredProvidersInBlock [] terraformExample =
          Inr (MkBlock (BlockType terraformExample) (Labels terraformExample)
                 (MkBody (map requiredProvidersNode (children (Body terraformExample)))
                    (attrItems (Body terraformExample))))"
    and "sortBlockBody [] terraformExample = sortRequiredProvidersInBlock [] terraformExample"
    by blast+
  then show ?thesis by (simp only: terraform_example_nodes t l simp_thms)
qed

text \<open>
  C10. After \<open>sortRequiredProvidersInBlock\<close> has run on a block, every child block of
  kind \<open>required_providers\<close> stands at its place with a rebuilt child list: newline,
  the trimmed tokens of its attributes in the order of their names with single
  newlines between them, newline. That list holds no nested block and no attribute
  node; every node of it is a newline or the trimmed tokens of one of the attributes
  of the child, and the nodes other than newlines are exactly those attributes.
  Whatever else the child held (nested blocks, comments and other token runs) is not
  in the output.
\<close>

theorem sortRequiredProvidersInBlock_only_attributes:
  "\<exists>nodes'.
     sortRequiredProvidersInBlock seed block =
       Inr (MkBlock (BlockType block) (Labels block) (MkBody nodes' (attrItems (Body block)))) \<and>
     length nodes' = length (children (Body block)) \<and>
     (\<forall>i b. i < length (children (Body block)) \<and> children (Body block) ! i = BlockNode b \<and>
            BlockType b = ''required_providers'' \<longrightarrow>
        (\<exists>body'.
           nodes' ! i =
             BlockNode (MkBlock ''required_providers'' (Labels b)
               (MkBody body' (attrItems (Body b)))) \<and>
           body' = [newlineNode]
                   @ separated (map trimmedNode (sort_key fst (Attributes (Body b))))
                   @ [newlineNode] \<and>
           childBlocks body' = [] \<and> attributesOf body' = [] \<and>
           (\<forall>n \<in> set body'.
              n = newlineNode \<or> (\<exists>e \<in> set (Attributes (Body b)). n = trimmedNode e)) \<and>
           filter (\<lambda>n. n \<noteq> newlineNode) body' =
             map trimmedNode (sort_key fst (Attributes (Body b)))))"
proof -
  let ?nodes = "map requiredProvidersNode (children (Body block))"
  have 1: "sortRequiredProvidersInBlock seed block =
       Inr (MkBlock (BlockType block) (Labels block) (MkBody ?nodes (attrItems (Body block))))"
    by (simp only: sortRequiredProvidersInBlock_eq setBody_def)
  have 2: "length ?nodes = length (children (Body block))" by simp
  have 3: "\<exists>body'.
           ?nodes ! i =
             BlockNode (MkBlock ''required_providers'' (Labels b)
               (MkBody body' (attrItems (Body b)))) \<and>
           body' = [newlineNode]
                   @ separated (map trimmedNode (sort_key fst (Attributes (Body b))))
                   @ [newlineNode] \<and>
           childBlocks body' = [] \<and> attributesOf body' = [] \<and>
           (\<forall>n \<in> set body'.
              n = newlineNode \<or> (\<exists>e \<in> set (Attributes (Body b)). n = trimmedNode e)) \<and>
           filter (\<lambda>n. n \<noteq> newlineNode) body' =
             map trimmedNode (sort_key fst (Attributes (Body b)))"
    if i: "i < length (children (Body block))"
      and n: "children (Body block) ! i = BlockNode b"
      and k: "BlockType b = ''required_providers''" for i b
  proof -
    let ?es = "sort_key fst (Attributes (Body b))"
    let ?body = "[newlineNode] @ separated (map trimmedNode ?es) @ [newlineNode]"
    have a: "?nodes ! i =
             BlockNode (MkBlock ''required_providers'' (Labels b)
               (MkBody ?body (attrItems (Body b))))"
      using i n k by (simp add: requiredProvidersNode_def setBody_def canonicalBody_def)
    have nl: "childBlocks [newlineNode] = []" "attributesOf [newlineNode] = []"
      by (simp_all add: newlineNode_def)
    have b: "childBlocks ?body = []"
      by (simp only: childBlocks_append childBlocks_separated_trimmed nl append_Nil)
    have c: "attributesOf ?body = []"
      by (simp only: attributesOf_append attributesOf_separated_trimmed nl append_Nil)
    have d: "\<forall>n \<in> set ?body.
               n = newlineNode \<or> (\<exists>e \<in> set (Attributes (Body b)). n = trimmedNode e)"
      using set_separated[of "map trimmedNode ?es"] by auto
    have "newlineNode \<notin> set (map trimmedNode ?es)"
      using trimmedNode_not_newline by (metis (no_types) ex_map_conv)
    then have e: "filter (\<lambda>n. n \<noteq> newlineNode) ?body = map trimmedNode ?es"
      by (simp add: filter_separated)
    from a b c d e show ?thesis by blast
  qed
  from 1 2 3 show ?thesis by blast
qed

lemma providers_example_facts:
  "children (Body terraformProvidersExample) = [BlockNode providersExample]"
  "attrItems (Body terraformProvidersExample) = []"
  "BlockType terraformProvidersExample = ''terraform''"
  "Labels terraformProvidersExample = []"
  "BlockType providersExample = ''required_providers''"
  "Labels providersExample = []"
  "attrItems (Body providersExample) = [exampleAttr ''google'', exampleAttr ''aws'']"
  "childBlocks (children (Body providersExample)) = [MkBlock ''nested'' [] (MkBody [] [])]"
  "map trimmedNode (sort_key fst (Attributes (Body providersExample))) =
     [TokensNode (exampleTokens ''aws''), TokensNode (exampleTokens ''google'')]"
  by code_simp+

theorem sortRequiredProvidersInBlock_only_attributes_witness:
  "sortRequiredProvidersInBlock [] terraformProvidersExample =
     Inr (MkBlock ''terraform'' []
       (MkBody
          [BlockNode (MkBlock ''required_providers'' []
             (MkBody
                [newlineNode, TokensNode (exampleTokens ''aws''), newlineNode,
                 TokensNode (exampleTokens ''google''), newlineNode]
                [exampleAttr ''google'', exampleAttr ''aws'']))]
          [])) \<and>
   childBlocks (children (Body providersExample)) = [MkBlock ''nested'' [] (MkBody [] [])]"
proof -
  let ?t = terraformProvidersExample
  obtain nodes' where
    r: "sortRequiredProvidersInBlock [] ?t =
          Inr (MkBlock (BlockType ?t) (Labels ?t) (MkBody nodes' (attrItems (Body ?t))))" and
    len: "length nodes' = length (children (Body ?t))" and
    p: "\<forall>i b. i < length (children (Body ?t)) \<and> children (Body ?t) ! i = BlockNode b \<and>
            BlockType b = ''required_providers'' \<longrightarrow>
        (\<exists>body'.
           nodes' ! i =
             BlockNode (MkBlock ''required_providers'' (Labels b)
               (MkBody body' (attrItems (Body b)))) \<and>
           body' = [newlineNode]
                   @ separated (map trimmedNode (sort_key fst (Attributes (Body b))))
                   @ [newlineNode])"
    using sortRequiredProvidersInBlock_only_attributes[of "[]" ?t] by blast
  have "length nodes' = 1" using len by (simp add: providers_example_facts)
  then obtain x where x: "nodes' = [x]" by (cases nodes') simp_all
  have "0 < length (children (Body ?t)) \<and> children (Body ?t) ! 0 = BlockNode providersExample \<and>
        BlockType providersExample = ''required_providers''"
    by (simp add: providers_example_facts)
  with p obtain body' where
    n0: "nodes' ! 0 =
           BlockNode (MkBlock ''required_providers'' (Labels providersExample)
             (MkBody body' (attrItems (Body providersExample))))" and
    b: "body' = [newlineNode]
          @ separated (map trimmedNode (sort_key fst (Attributes (Body providersExample))))
          @ [newlineNode]"
    by blast
  have "x = BlockNode (MkBlock ''required_providers'' []
             (MkBody
                [newlineNode, TokensNode (exampleTokens ''aws''), newlineNode,
                 TokensNode (exampleTokens ''google''), newlineNode]
                [exampleAttr ''google'', exampleAttr ''aws'']))"
    using n0 unfolding x b by (simp add: providers_example_facts)
  then show ?thesis using r unfolding x by (simp add: providers_example_facts)
qed

section \<open>Attribute content is preserved\<close>

lemma update_fresh: "k \<notin> fst ` set al \<Longrightarrow> AList.update k v al = al @ [(k, v)]"
  by (induction al) auto

lemma collectAttributes_distinct:
  "distinct (map fst ret @ map attrName attrs) \<Longrightarrow>
   collectAttributes attrs ret = ret @ map (\<lambda>a. (attrName a, a)) attrs"
proof (induction attrs ret rule: collectAttributes.induct)
  case (2 attr attrs ret)
  have "attrName attr \<notin> fst ` set ret" using "2.prems" by auto
  then have u: "AList.update (attrName attr) attr ret = ret @ [(attrName attr, attr)]"
    by (rule update_fresh)
  have "distinct (map fst (ret @ [(attrName attr, attr)]) @ map attrName attrs)"
    using "2.prems" by auto
  then show ?case using "2.IH" by (simp add: u)
qed simp_all

lemma Attributes_distinct:
  "distinct (map attrName (attrItems body)) \<Longrightarrow> map snd (Attributes body) = attrItems body"
  using collectAttributes_distinct[of "[]" "attrItems body"]
  by (simp add: Attributes_def comp_def)

lemma unstructuredTokens_append:
  "unstructuredTokens (xs @ ys) = unstructuredTokens xs @ unstructuredTokens ys"
  by (induction xs rule: unstructuredTokens.induct) simp_all

lemma relocatedTokens_append:
  "relocatedTokens (xs @ ys) = relocatedTokens xs @ relocatedTokens ys"
  by (simp add: relocatedTokens_def unstructuredTokens_append)

lemma relocatedTokens_newline: "relocatedTokens [newlineNode] = []"
  by (simp add: relocatedTokens_def newlineNode_def)

lemma relocatedTokens_Cons_newline: "relocatedTokens (newlineNode # xs) = relocatedTokens xs"
  by (simp add: relocatedTokens_def newlineNode_def)

lemma relocatedTokens_Cons_trimmed:
  "relocatedTokens (trimmedNode e # xs) = trimmed (BuildTokens (snd e)) # relocatedTokens xs"
  by (simp add: relocatedTokens_def trimmedNode_def trimmed_not_newline)

lemma relocatedTokens_Cons_block: "relocatedTokens (BlockNode b # xs) = relocatedTokens xs"
  by (simp add: relocatedTokens_def)

lemma relocatedTokens_Nil: "relocatedTokens [] = []"
  by (simp add: relocatedTokens_def)

lemmas relocated_simps = relocatedTokens_Nil relocatedTokens_Cons_newline
  relocatedTokens_Cons_trimmed relocatedTokens_Cons_block

lemma relocatedTokens_separated:
  "relocatedTokens (separated (map trimmedNode es)) = map (\<lambda>e. trimmed (BuildTokens (snd e))) es"
  by (induction es rule: induct_list012) (simp_all add: relocated_simps)

lemma relocatedTokens_terminated:
  "relocatedTokens (terminated (map trimmedNode es)) = map (\<lambda>e. trimmed (BuildTokens (snd e))) es"
  by (induction es) (simp_all add: relocated_simps)

lemma relocatedTokens_blocks: "relocatedTokens (separated (map BlockNode bs)) = []"
  by (induction bs rule: induct_list012) (simp_all add: relocated_simps)

lemma relocatedTokens_map_trimmed:
  "relocatedTokens (map trimmedNode es) = map (\<lambda>e. trimmed (BuildTokens (snd e))) es"
  by (induction es) (simp_all add: relocated_simps)

lemma relocatedTokens_canonicalBody:
  "mset (relocatedTokens (canonicalBody attrs)) =
   mset (map (\<lambda>e. trimmed (BuildTokens (snd e))) attrs)"
  by (simp add: canonicalBody_def relocatedTokens_append relocatedTokens_separated
      relocatedTokens_newline relocated_simps)

lemma three_groups:
  "mset (filter (\<lambda>e. isLeadingName (fst e)) xs) + mset (filter (\<lambda>e. isBodyName (fst e)) xs)
   + mset (filter (\<lambda>e. fst e = ''depends_on'') xs) = mset xs"
  by (induction xs) (auto simp: isBodyName_def isLeadingName_def)

lemma relocatedTokens_resourceBody:
  "mset (relocatedTokens (resourceBody (leadingGroup seed attrs) (bodyGroup attrs) blocks
           (dependsOnGroup attrs))) =
   mset (map (\<lambda>e. trimmed (BuildTokens (snd e))) attrs)"
proof -
  let ?t = "\<lambda>e::string \<times> Attribute. trimmed (BuildTokens (snd e))"
  have "mset (relocatedTokens (resourceBody (leadingGroup seed attrs) (bodyGroup attrs) blocks
           (dependsOnGroup attrs))) =
        image_mset ?t (mset (leadingGroup seed attrs)) + image_mset ?t (mset (bodyGroup attrs))
        + image_mset ?t (mset (dependsOnGroup attrs))"
    by (simp add: resourceBody_def relocatedTokens_append relocatedTokens_separated
        relocatedTokens_terminated relocatedTokens_newline relocatedTokens_blocks
        relocatedTokens_map_trimmed relocated_simps)
  also have "\<dots> = image_mset ?t (mset (filter (\<lambda>e. isLeadingName (fst e)) attrs)
        + mset (filter (\<lambda>e. isBodyName (fst e)) attrs)
        + mset (filter (\<lambda>e. fst e = ''depends_on'') attrs))"
    by (simp add: leadingGroup_def bodyGroup_def dependsOnGroup_def mset_shuffle)
  also have "\<dots> = image_mset ?t (mset attrs)" by (simp only: three_groups)
  finally show ?thesis by simp
qed

text \<open>
  C8. Each of the three sorters re-emits, for every attribute of the body it rebuilds,
  the trimmed token sequence of that attribute, token for token (type and bytes),
  once, and emits no other tokens but newlines: the token runs of the rebuilt child
  list that are not a newline are, as a multiset, the trimmed token sequences of the
  attributes. Only the position changes. In a parsed body the attribute items are the
  attributes of the child list and their names are unique, and the attributes of the
  map are then the attributes of the source.
\<close>

theorem sorters_preserve_attribute_tokens:
  "\<exists>b1 b2 b3.
     sortLocalsBlock seed block = Inr b1 \<and>
     sortResourceParams seed block = Inr b2 \<and>
     sortRequiredProviders seed block = Inr b3 \<and>
     mset (relocatedTokens (children (Body b1))) =
       mset (map (\<lambda>e. trimmed (BuildTokens (snd e))) (Attributes (Body block))) \<and>
     mset (relocatedTokens (children (Body b2))) =
       mset (map (\<lambda>e. trimmed (BuildTokens (snd e))) (Attributes (Body block))) \<and>
     mset (relocatedTokens (children (Body b3))) =
       mset (map (\<lambda>e. trimmed (BuildTokens (snd e))) (Attributes (Body block))) \<and>
     (attrItems (Body block) = attributesOf (children (Body block)) \<and>
      distinct (map attrName (attributesOf (children (Body block)))) \<longrightarrow>
        map snd (Attributes (Body block)) = attributesOf (children (Body block)))"
proof -
  let ?attrs = "Attributes (Body block)"
  let ?its = "attrItems (Body block)"
  have 1: "sortLocalsBlock seed block = Inr (setBody block (MkBody (canonicalBody ?attrs) ?its))"
    by (rule sortLocalsBlock_eq)
  have 2: "sortResourceParams seed block =
     Inr (setBody block (MkBody (resourceBody (leadingGroup seed ?attrs) (bodyGroup ?attrs)
            (Blocks (Body block)) (dependsOnGroup ?attrs)) ?its))"
    by (rule sortResourceParams_eq)
  have 3: "sortRequiredProviders seed block =
     Inr (setBody block (MkBody (canonicalBody ?attrs) ?its))"
    by (rule sortRequiredProviders_eq)
  have 4: "mset (relocatedTokens (children (Body (setBody block
             (MkBody (canonicalBody ?attrs) ?its))))) =
           mset (map (\<lambda>e. trimmed (BuildTokens (snd e))) ?attrs)"
    by (simp only: setBody_def Block.sel Body.sel relocatedTokens_canonicalBody)
  have 5: "mset (relocatedTokens (children (Body (setBody block
             (MkBody (resourceBody (leadingGroup seed ?attrs) (bodyGroup ?attrs)
                (Blocks (Body block)) (dependsOnGroup ?attrs)) ?its))))) =
           mset (map (\<lambda>e. trimmed (BuildTokens (snd e))) ?attrs)"
    by (simp only: setBody_def Block.sel Body.sel relocatedTokens_resourceBody)
  have 6: "attrItems (Body block) = attributesOf (children (Body block)) \<and>
           distinct (map attrName (attributesOf (children (Body block)))) \<longrightarrow>
           map snd ?attrs = attributesOf (children (Body block))"
    using Attributes_distinct[of "Body block"] by auto
  from 1 2 3 4 5 6 show ?thesis by blast
qed

lemma resource_example_attributes:
  "attrItems (Body resourceExample) = attributesOf (children (Body resourceExample))"
  "distinct (map attrName (attributesOf (children (Body resourceExample))))"
  "map (\<lambda>a. trimmed (BuildTokens a)) (attributesOf (children (Body resourceExample))) =
     map exampleTokens [''name'', ''for_each'', ''depends_on'', ''ami'', ''count'']"
  by code_simp+

theorem sorters_preserve_attribute_tokens_witness:
  "attrItems (Body resourceExample) = attributesOf (children (Body resourceExample)) \<and>
   distinct (map attrName (attributesOf (children (Body resourceExample)))) \<and>
   (\<exists>b2. sortResourceParams [] resourceExample = Inr b2 \<and>
      mset (relocatedTokens (children (Body b2))) =
        mset (map exampleTokens [''name'', ''for_each'', ''depends_on'', ''ami'', ''count'']))"
proof -
  obtain b2 where
    r: "sortResourceParams [] resourceExample = Inr b2" and
    m: "mset (relocatedTokens (children (Body b2))) =
          mset (map (\<lambda>e. trimmed (BuildTokens (snd e))) (Attributes (Body resourceExample)))" and
    d: "attrItems (Body resourceExample) = attributesOf (children (Body resourceExample)) \<and>
        distinct (map attrName (attributesOf (children (Body resourceExample)))) \<longrightarrow>
          map snd (Attributes (Body resourceExample)) =
            attributesOf (children (Body resourceExample))"
    using sorters_preserve_attribute_tokens[of "[]" resourceExample] by blast
  have a: "map snd (Attributes (Body resourceExample)) =
           attributesOf (children (Body resourceExample))"
    using d resource_example_attributes(1,2) by blast
  have "map (\<lambda>e. trimmed (BuildTokens (snd e))) (Attributes (Body resourceExample)) =
        map (\<lambda>a. trimmed (BuildTokens a)) (map snd (Attributes (Body resourceExample)))"
    by (simp add: comp_def)
  then have "mset (relocatedTokens (children (Body b2))) =
        mset (map exampleTokens [''name'', ''for_each'', ''depends_on'', ''ami'', ''count''])"
    using m by (simp only: a resource_example_attributes(3))
  with r resource_example_attributes(1,2) show ?thesis by blast
qed

section \<open>Failure semantics\<close>

lemma shuffle_Nil: "shuffle seed [] = []"
  by (cases seed) simp_all

lemma sortSlice_Nil: "sortSlice seed [] = []"
  by (simp add: sortSlice_def shuffle_Nil)

lemma sortedBlock_other_kind:
  "BlockType b \<noteq> ''terraform'' \<Longrightarrow> BlockType b \<noteq> ''resource'' \<Longrightarrow>
   BlockType b \<noteq> ''locals'' \<Longrightarrow> sortedBlock seed b = b"
  by (simp add: sortedBlock_def)

lemma childBlocks_sortedNodes_other_kinds:
  "(\<forall>b \<in> set (childBlocks nodes).
      BlockType b \<noteq> ''terraform'' \<and> BlockType b \<noteq> ''resource'' \<and> BlockType b \<noteq> ''locals'') \<Longrightarrow>
   childBlocks (sortedNodes seeds i nodes) = childBlocks nodes"
  by (induction seeds i nodes rule: sortedNodes.induct) (simp_all add: sortedBlock_other_kind)

lemma emittedBlocks_none_sortable:
  "(\<forall>b \<in> set blocks. \<not> isSortable allowedBlocks b) \<Longrightarrow>
   emittedBlocks sortSeed allowedBlocks blocks = blocks"
proof -
  assume a: "\<forall>b \<in> set blocks. \<not> isSortable allowedBlocks b"
  then have "filter (isSortable allowedBlocks) blocks = []"
    by (simp add: filter_empty_conv)
  moreover have "filter (\<lambda>b. \<not> isSortable allowedBlocks b) blocks = blocks"
    using a by (simp add: filter_id_conv)
  ultimately show ?thesis by (simp add: emittedBlocks_def sortSlice_Nil)
qed

text \<open>
  C9. \<open>ParseHCLContent\<close> returns an error exactly when the parser reports
  diagnostics with errors (the test \<open>diags.HasErrors()\<close> of line 22); the error's
  message holds the filename and the text of the diagnostics, and the error wraps the diagnostics; otherwise the parsed
  file is returned with no error. The reorder pass and each of its sorters return a
  result for every input (no index, slice or nil failure is reachable), the format
  step is the library's formatter applied to the file's bytes, an empty body is
  rebuilt as a body of two newlines, and a document with no \<open>terraform\<close>, \<open>resource\<close> or
  \<open>locals\<close> block and no sortable declaration keeps its declarations and their order.
\<close>

theorem parsing_is_the_only_failure:
  "(snd (ParseHCLContent ParseConfig diagsError src filename) \<noteq> None) =
     HasErrors (snd (ParseConfig src filename)) \<and>
   (HasErrors (snd (ParseConfig src filename)) \<longrightarrow>
      ParseHCLContent ParseConfig diagsError src filename =
        (None,
         Some \<lparr>msg = ''error parsing HCL content from '' @ [CHR 0x27] @ filename @ [CHR 0x27]
                      @ '': '' @ diagsError (snd (ParseConfig src filename)),
               unwrap = snd (ParseConfig src filename)\<rparr>)) \<and>
   (\<not> HasErrors (snd (ParseConfig src filename)) \<longrightarrow>
      ParseHCLContent ParseConfig diagsError src filename =
        (fst (ParseConfig src filename), None)) \<and>
   (\<exists>file'. ProcessAndSortBlocks seeds sortSeed file allowedBlocks = Inr file') \<and>
   (\<exists>block'. sortRequiredProvidersInBlock seed block = Inr block') \<and>
   (\<exists>block'. sortLocalsBlock seed block = Inr block') \<and>
   (\<exists>block'. sortResourceParams seed block = Inr block') \<and>
   FormatHCLBytes Format fileBytes file = Format (fileBytes file) \<and>
   sortLocalsBlock seed (MkBlock kind labels (MkBody [] [])) =
     Inr (MkBlock kind labels (MkBody [newlineNode, newlineNode] [])) \<and>
   sortResourceParams seed (MkBlock kind labels (MkBody [] [])) =
     Inr (MkBlock kind labels (MkBody [newlineNode, newlineNode] [])) \<and>
   sortRequiredProviders seed (MkBlock kind labels (MkBody [] [])) =
     Inr (MkBlock kind labels (MkBody [newlineNode, newlineNode] [])) \<and>
   ((\<forall>b \<in> set (Blocks (FileBody file)).
        BlockType b \<noteq> ''terraform'' \<and> BlockType b \<noteq> ''resource'' \<and> BlockType b \<noteq> ''locals'' \<and>
        \<not> (allowed allowedBlocks (BlockType b) \<and> Labels b \<noteq> [])) \<longrightarrow>
      ProcessAndSortBlocks seeds sortSeed file allowedBlocks =
        Inr (MkFile (MkBody (separated (map BlockNode (Blocks (FileBody file))))
                       (attrItems (FileBody file)))))"
proof -
  obtain f diags where p: "ParseConfig src filename = (f, diags)"
    by (cases "ParseConfig src filename")
  have 1: "(snd (ParseHCLContent ParseConfig diagsError src filename) \<noteq> None) =
     HasErrors (snd (ParseConfig src filename))"
    by (simp add: ParseHCLContent_def p)
  have 2: "HasErrors (snd (ParseConfig src filename)) \<longrightarrow>
      ParseHCLContent ParseConfig diagsError src filename =
        (None,
         Some \<lparr>msg = ''error parsing HCL content from '' @ [CHR 0x27] @ filename @ [CHR 0x27]
                      @ '': '' @ diagsError (snd (ParseConfig src filename)),
               unwrap = snd (ParseConfig src filename)\<rparr>)"
    by (simp add: ParseHCLContent_def p)
  have 3: "\<not> HasErrors (snd (ParseConfig src filename)) \<longrightarrow>
      ParseHCLContent ParseConfig diagsError src filename =
        (fst (ParseConfig src filename), None)"
    by (simp add: ParseHCLContent_def p)
  have 4: "\<exists>file'. ProcessAndSortBlocks seeds sortSeed file allowedBlocks = Inr file'"
    by (simp only: ProcessAndSortBlocks_eq) blast
  have 5: "\<exists>block'. sortRequiredProvidersInBlock seed block = Inr block'"
    by (simp only: sortRequiredProvidersInBlock_eq) blast
  have 6: "\<exists>block'. sortLocalsBlock seed block = Inr block'"
    by (simp only: sortLocalsBlock_eq) blast
  have 7: "\<exists>block'. sortResourceParams seed block = Inr block'"
    by (simp only: sortResourceParams_eq) blast
  have 8: "FormatHCLBytes Format fileBytes file = Format (fileBytes file)"
    by (simp add: FormatHCLBytes_def)
  have e: "Attributes (MkBody [] []) = []" "Blocks (MkBody [] []) = []"
    by (simp_all add: Attributes_def Blocks_def)
  have 9: "sortLocalsBlock seed (MkBlock kind labels (MkBody [] [])) =
     Inr (MkBlock kind labels (MkBody [newlineNode, newlineNode] []))"
    by (simp add: sortLocalsBlock_eq setBody_def canonicalBody_def e)
  have 10: "sortResourceParams seed (MkBlock kind labels (MkBody [] [])) =
     Inr (MkBlock kind labels (MkBody [newlineNode, newlineNode] []))"
    by (simp add: sortResourceParams_eq setBody_def resourceBody_def e leadingGroup_def
        bodyGroup_def dependsOnGroup_def shuffle_Nil)
  have 11: "sortRequiredProviders seed (MkBlock kind labels (MkBody [] [])) =
     Inr (MkBlock kind labels (MkBody [newlineNode, newlineNode] []))"
    by (simp add: sortRequiredProviders_eq setBody_def canonicalBody_def e)
  have 12: "(\<forall>b \<in> set (Blocks (FileBody file)).
        BlockType b \<noteq> ''terraform'' \<and> BlockType b \<noteq> ''resource'' \<and> BlockType b \<noteq> ''locals'' \<and>
        \<not> (allowed allowedBlocks (BlockType b) \<and> Labels b \<noteq> [])) \<longrightarrow>
      ProcessAndSortBlocks seeds sortSeed file allowedBlocks =
        Inr (MkFile (MkBody (separated (map BlockNode (Blocks (FileBody file))))
                       (attrItems (FileBody file))))"
  proof
    assume a: "\<forall>b \<in> set (Blocks (FileBody file)).
        BlockType b \<noteq> ''terraform'' \<and> BlockType b \<noteq> ''resource'' \<and> BlockType b \<noteq> ''locals'' \<and>
        \<not> (allowed allowedBlocks (BlockType b) \<and> Labels b \<noteq> [])"
    then have b: "childBlocks (sortedNodes seeds 0 (children (FileBody file))) =
                  Blocks (FileBody file)"
      unfolding Blocks_def by (intro childBlocks_sortedNodes_other_kinds) blast
    have "\<forall>b \<in> set (Blocks (FileBody file)). \<not> isSortable allowedBlocks b"
      using a by (simp add: isSortable_def)
    then have "emittedBlocks sortSeed allowedBlocks (Blocks (FileBody file)) =
               Blocks (FileBody file)"
      by (rule emittedBlocks_none_sortable)
    then show "ProcessAndSortBlocks seeds sortSeed file allowedBlocks =
        Inr (MkFile (MkBody (separated (map BlockNode (Blocks (FileBody file))))
                       (attrItems (FileBody file))))"
      by (simp add: ProcessAndSortBlocks_eq b)
  qed
  from 1 2 3 4 5 6 7 8 9 10 11 12 show ?thesis by (intro conjI)
qed

lemma parse_examples:
  "HasErrors (snd (failingParser ''x = '' ''main.tf''))"
  "\<not> HasErrors (snd (succeedingParser ''x = 1'' ''main.tf''))"
  by (simp_all add: failingParser_def succeedingParser_def)

theorem parsing_is_the_only_failure_witness:
  "ParseHCLContent failingParser (\<lambda>d. Summary (hd d)) ''x = '' ''main.tf'' =
     (None,
      Some \<lparr>msg = ''error parsing HCL content from '' @ [CHR 0x27] @ ''main.tf'' @ [CHR 0x27]
                   @ '': Invalid expression'',
            unwrap = [\<lparr>Severity = DiagError, Summary = ''Invalid expression'', Detail = []\<rparr>]\<rparr>) \<and>
   ParseHCLContent succeedingParser (\<lambda>d. Summary (hd d)) ''x = 1'' ''main.tf'' =
     (Some (MkFile (MkBody [AttributeNode (exampleAttr ''x'')] [exampleAttr ''x''])), None) \<and>
   ProcessAndSortBlocks (\<lambda>k. []) []
     (MkFile (MkBody [BlockNode (MkBlock ''module'' [''m''] (MkBody [] []))] [])) Map.empty =
     Inr (MkFile (MkBody [BlockNode (MkBlock ''module'' [''m''] (MkBody [] []))] []))"
proof -
  let ?file = "MkFile (MkBody [BlockNode (MkBlock ''module'' [''m''] (MkBody [] []))] [])"
  note t1 = parsing_is_the_only_failure[of failingParser "\<lambda>d. Summary (hd d)" "''x = ''"
      "''main.tf''" "\<lambda>k. []" "[]" ?file Map.empty]
  note t2 = parsing_is_the_only_failure[of succeedingParser "\<lambda>d. Summary (hd d)" "''x = 1''"
      "''main.tf''" "\<lambda>k. []" "[]" ?file Map.empty]
  have a: "ParseHCLContent failingParser (\<lambda>d. Summary (hd d)) ''x = '' ''main.tf'' =
     (None,
      Some \<lparr>msg = ''error parsing HCL content from '' @ [CHR 0x27] @ ''main.tf'' @ [CHR 0x27]
                   @ '': '' @ Summary (hd (snd (failingParser ''x = '' ''main.tf''))),
            unwrap = snd (failingParser ''x = '' ''main.tf'')\<rparr>)"
    using t1 parse_examples(1) by blast
  have b: "ParseHCLContent succeedingParser (\<lambda>d. Summary (hd d)) ''x = 1'' ''main.tf'' =
     (fst (succeedingParser ''x = 1'' ''main.tf''), None)"
    using t2 parse_examples(2) by blast
  have "\<forall>b \<in> set (Blocks (FileBody ?file)).
        BlockType b \<noteq> ''terraform'' \<and> BlockType b \<noteq> ''resource'' \<and> BlockType b \<noteq> ''locals'' \<and>
        \<not> (allowed Map.empty (BlockType b) \<and> Labels b \<noteq> [])"
    by (simp add: allowed_def Blocks_def)
  with t1 have c: "ProcessAndSortBlocks (\<lambda>k. []) [] ?file Map.empty =
        Inr (MkFile (MkBody (separated (map BlockNode (Blocks (FileBody ?file))))
                       (attrItems (FileBody ?file))))"
    by blast
  show ?thesis
    using a b c by (simp add: failingParser_def succeedingParser_def parsedBody_def Blocks_def)
qed

section \<open>Running the pass on its own output\<close>





lemma sortedNodes_separated:
  "sortedNodes seeds i (separated (map BlockNode bs)) =
     separated (map BlockNode (map (\<lambda>(k, b). sortedBlock (seeds k) b) (enumerate i bs)))"
proof (induction bs arbitrary: i rule: induct_list012)
  case 1
  then show ?case by simp
next
  case (2 x)
  then show ?case by simp
next
  case (3 x y zs)
  from "3.IH"(2)[of "Suc i"] show ?case by (simp add: newlineNode_def)
qed




















text \<open>
  The proviso on \<open>sort.Slice\<close> cannot be dropped on the strength of its contract
  alone: an unstable sort may exchange two declarations of one first label, also in a
  slice that is already in order.
\<close>

lemma unstable_sort_exchanges_equal_labels:
  "ProcessAndSortBlocks (\<lambda>k. []) [] amiExample [''data'' \<mapsto> True] = Inr amiOrderBA \<and>
   ProcessAndSortBlocks (\<lambda>k. []) [1] amiOrderBA [''data'' \<mapsto> True] = Inr amiOrderAB \<and>
   amiOrderBA \<noteq> amiOrderAB"
  by code_simp


end
